theory Spec2Isabelle
  imports Main "HOL-Library.Product_Lexorder"
begin

section \<open>Scheduler: the minute matcher of \<^verbatim>\<open>scheduler/index.ts\<close>\<close>

text \<open>
  JavaScript strings are modelled as \<^typ>\<open>string\<close>, one \<^typ>\<open>char\<close> per code unit
  (code units up to 255, which covers every pattern of the schedule table).
  \<^verbatim>\<open>parseInt\<close> yields a number or \<^verbatim>\<open>NaN\<close>; \<^verbatim>\<open>NaN\<close> is \<open>None\<close>.
  The current minute is \<^verbatim>\<open>new Date().getMinutes()\<close>, a number from 0 to 59; it is the
  argument \<open>currentMinute\<close> of the model.
\<close>

definition startsWith :: "string \<Rightarrow> string \<Rightarrow> bool" where
  "startsWith s p = (take (length p) s = p)"

text \<open>\<^verbatim>\<open>s.split(c)\<close> for a separator of one character: never an empty array.\<close>

fun split :: "char \<Rightarrow> string \<Rightarrow> string list" where
  "split c [] = [[]]"
| "split c (x # xs) =
     (if x = c then [] # split c xs
      else (case split c xs of
              [] \<Rightarrow> [[x]]
            | y # ys \<Rightarrow> (x # y) # ys))"

text \<open>White space as \<^verbatim>\<open>\s\<close> and \<^verbatim>\<open>parseInt\<close> read it (tab, line feed, vertical tab,
  form feed, carriage return, space, no-break space).\<close>

definition is_space :: "char \<Rightarrow> bool" where
  "is_space c = (of_char c \<in> {9, 10, 11, 12, 13, 32, 160 :: nat})"

definition is_digit :: "char \<Rightarrow> bool" where
  "is_digit c = (48 \<le> (of_char c :: nat) \<and> (of_char c :: nat) \<le> 57)"

definition digit_val :: "char \<Rightarrow> nat" where
  "digit_val c = of_char c - 48"

definition is_hex_digit :: "char \<Rightarrow> bool" where
  "is_hex_digit c =
     (is_digit c \<or> (65 \<le> (of_char c :: nat) \<and> (of_char c :: nat) \<le> 70)
                \<or> (97 \<le> (of_char c :: nat) \<and> (of_char c :: nat) \<le> 102))"

definition hex_val :: "char \<Rightarrow> nat" where
  "hex_val c =
     (if is_digit c then of_char c - 48
      else if (of_char c :: nat) \<le> 70 then of_char c - 55
      else of_char c - 87)"

text \<open>The value of a run of digits, most significant first.\<close>

definition dec_value :: "string \<Rightarrow> nat" where
  "dec_value ds = foldl (\<lambda>acc c. 10 * acc + digit_val c) 0 ds"

definition hex_value :: "string \<Rightarrow> nat" where
  "hex_value ds = foldl (\<lambda>acc c. 16 * acc + hex_val c) 0 ds"

text \<open>
  \<^verbatim>\<open>parseInt(s)\<close> with no radix: leading white space is skipped, a sign is read, a
  prefix \<^verbatim>\<open>0x\<close> or \<^verbatim>\<open>0X\<close> selects radix 16, the longest run of digits is taken and the
  rest ignored; no digit gives \<^verbatim>\<open>NaN\<close>. The number is kept exact: the matcher only
  compares it with, or divides, a minute below 60, where the rounding of a JavaScript
  number beyond \<open>2^53\<close> changes no outcome.
\<close>

definition parseInt :: "string \<Rightarrow> int option" where
  "parseInt s =
     (let s1 = dropWhile is_space s;
          neg = (s1 \<noteq> [] \<and> hd s1 = CHR ''-'');
          s2 = (if s1 \<noteq> [] \<and> (hd s1 = CHR ''-'' \<or> hd s1 = CHR ''+'') then tl s1 else s1);
          hex = (startsWith s2 ''0x'' \<or> startsWith s2 ''0X'');
          ds = (if hex then takeWhile is_hex_digit (drop 2 s2) else takeWhile is_digit s2);
          v = (if hex then hex_value ds else dec_value ds)
      in if ds = [] then None
         else Some (if neg then - int v else int v))"

text \<open>The test \<^verbatim>\<open>/^\d+\s/.test(cronPattern)\<close>: one digit or more, then a white space.\<close>

definition digits_then_space :: "string \<Rightarrow> bool" where
  "digits_then_space s =
     (takeWhile is_digit s \<noteq> [] \<and>
      (case dropWhile is_digit s of [] \<Rightarrow> False | c # cs \<Rightarrow> is_space c))"

text \<open>
  \<^verbatim>\<open>currentMinute % interval === 0\<close> for a minute that is not negative: \<^verbatim>\<open>NaN\<close> when
  the interval is \<^verbatim>\<open>NaN\<close> or zero, and the remainder has the sign of the minute.
\<close>

definition minute_divides :: "nat \<Rightarrow> int option \<Rightarrow> bool" where
  "minute_divides currentMinute interval =
     (case interval of
        None \<Rightarrow> False
      | Some n \<Rightarrow> n \<noteq> 0 \<and> int currentMinute mod \<bar>n\<bar> = 0)"

definition shouldRunSchedule :: "nat \<Rightarrow> string \<Rightarrow> bool" where
  "shouldRunSchedule currentMinute cronPattern =
     (if cronPattern = ''* * * * *'' then True
      else if startsWith cronPattern ''*/'' then
        minute_divides currentMinute
          (parseInt (hd (split CHR '' '' (split CHR ''/'' cronPattern ! 1))))
      else if digits_then_space cronPattern then
        (case parseInt (hd (split CHR '' '' cronPattern)) of
           None \<Rightarrow> False
         | Some minute \<Rightarrow> int currentMinute = minute)
      else False)"

section \<open>The store: tables of \<^verbatim>\<open>01_create_processing_schema.sql\<close>\<close>

text \<open>
  A \<^verbatim>\<open>UUID\<close> is kept as its text, a \<^verbatim>\<open>TIMESTAMPTZ\<close> as a number of milliseconds
  (the unit of the worker's \<^verbatim>\<open>Date.now()\<close>), an \<^verbatim>\<open>INTEGER\<close> as an \<^typ>\<open>int\<close>
  (no operation of the model leaves the 32-bit range from values inside it by more
  than one), and a column that may be \<^verbatim>\<open>NULL\<close> as an \<^typ>\<open>'a option\<close>.
\<close>

type_synonym uuid = string
type_synonym timestamp = int

definition minutes :: "int \<Rightarrow> int" where
  "minutes n = n * 60000"

datatype processing_status = Pending | Processing | Completed | Error

text \<open>A \<^verbatim>\<open>JSONB\<close> value, as the table stores it and the client hands it to JavaScript.
  A number is kept as an integer: the model only asks of a number whether it is zero.
  A stored value is in the canonical form of \<^verbatim>\<open>JSONB\<close> (the keys of an object in its
  order, none twice), so that two stored values are equal exactly when their texts
  are.\<close>

datatype json =
    JNull
  | JBool bool
  | JNum int
  | JStr string
  | JArr "json list"
  | JObj "(string \<times> json) list"

record batch =
  batch_id :: uuid
  batch_type :: string
  status :: processing_status
  priority :: int
  retry_count :: int
  items_total :: "int option"
  items_processed :: "int option"
  items_failed :: "int option"
  claimed_by :: "string option"
  claim_expires_at :: "timestamp option"
  started_at :: "timestamp option"
  completed_at :: "timestamp option"
  error_message :: "string option"
  metadata :: "json option"
  created_at :: timestamp
  updated_at :: timestamp

text \<open>The columns of \<^verbatim>\<open>dead_letter_items\<close>; those that share a name with a column of
  \<^verbatim>\<open>processing_batches\<close> carry the prefix \<open>dl\<close>.\<close>

record dead_letter_item =
  dl_id :: uuid
  item_type :: string
  dl_error_message :: "string option"
  original_batch_id :: uuid
  original_item_id :: string
  dl_retry_count :: "int option"
  dl_metadata :: "json option"
  dl_created_at :: timestamp
  dl_updated_at :: timestamp

text \<open>
  The table \<^verbatim>\<open>api_rate_limits\<close> is declared outside the migration; its row has the
  fields the gate and the monitor read. How the client delivers \<^verbatim>\<open>reset_at\<close> depends on
  the type of the column: a timestamp arrives as the text of the instant, a numeric
  column as a number of milliseconds. The model keeps both.
\<close>

datatype js_time = Millis timestamp | IsoText timestamp

text \<open>\<^verbatim>\<open>new Date(x).getTime()\<close>: the instant, whichever way it was delivered.\<close>

definition getTime :: "js_time \<Rightarrow> timestamp" where
  "getTime x = (case x of Millis t \<Rightarrow> t | IsoText t \<Rightarrow> t)"

text \<open>
  \<^verbatim>\<open>x > new Date()\<close> at the clock \<open>now\<close>. The comparison converts both sides to
  numbers: the date to its milliseconds, a number to itself, and a text that is not a
  numeral, such as that of a timestamp, to \<^verbatim>\<open>NaN\<close>, for which the comparison is false.
\<close>

definition later_than_date :: "js_time \<Rightarrow> timestamp \<Rightarrow> bool" where
  "later_than_date x now = (case x of Millis t \<Rightarrow> t > now | IsoText t \<Rightarrow> False)"

record rate_limit =
  api_name :: string
  endpoint :: string
  requests_remaining :: int
  requests_limit :: int
  reset_at :: js_time

record store =
  processing_batches :: "batch list"
  dead_letter_items :: "dead_letter_item list"
  api_rate_limits :: "rate_limit list"
  uuid_seq :: nat

text \<open>
  What the database supplies from outside the migration:
  \<^item> \<^verbatim>\<open>gen_random_uuid()\<close>, as the sequence of the values it returns (\<open>uuid_seq\<close> of the
    store counts the values drawn so far);
  \<^item> the trigger function \<^verbatim>\<open>update_updated_at_column()\<close>, which the migration attaches
    \<^verbatim>\<open>BEFORE UPDATE\<close> to both tables and does not define: going by its name it assigns
    \<^verbatim>\<open>NEW.updated_at\<close>, and the value it assigns is left open;
  \<^item> the monitor's floating-point test \<^verbatim>\<open>remainingPercent !== null && remainingPercent < 20\<close>.
\<close>

record env =
  gen_random_uuid :: "nat \<Rightarrow> uuid"
  batch_updated_at_column :: "batch \<Rightarrow> timestamp"
  dead_letter_updated_at_column :: "dead_letter_item \<Rightarrow> timestamp"
  remaining_percent_low :: "rate_limit \<Rightarrow> bool"

definition set_processing_batches_updated_at :: "env \<Rightarrow> batch \<Rightarrow> batch" where
  "set_processing_batches_updated_at env NEW = NEW\<lparr>updated_at := batch_updated_at_column env NEW\<rparr>"

definition set_dead_letter_items_updated_at :: "env \<Rightarrow> dead_letter_item \<Rightarrow> dead_letter_item" where
  "set_dead_letter_items_updated_at env NEW =
     NEW\<lparr>dl_updated_at := dead_letter_updated_at_column env NEW\<rparr>"

text \<open>
  The unique index \<^verbatim>\<open>idx_batches_unique_metadata\<close> on
  \<^verbatim>\<open>(batch_type, md5(metadata::text))\<close>, restricted to the rows with status \<^verbatim>\<open>pending\<close> or
  \<^verbatim>\<open>processing\<close>. A row whose metadata is \<^verbatim>\<open>NULL\<close> has a \<^verbatim>\<open>NULL\<close> key and collides with
  none; two different texts with the same \<^verbatim>\<open>md5\<close> are not modelled. The index is checked
  where a row enters it: on the insert of an active row, and on an update that makes
  an inactive row active. A row that is active before and after an update keeps its
  place, and on a table that satisfies the index such an update cannot fail. A
  generated id that collides with an existing one is not modelled.
\<close>

definition active :: "batch \<Rightarrow> bool" where
  "active b = (status b = Pending \<or> status b = Processing)"

definition unique_metadata_conflict :: "batch \<Rightarrow> batch list \<Rightarrow> bool" where
  "unique_metadata_conflict new others =
     (active new \<and>
      (case metadata new of
         None \<Rightarrow> False
       | Some j \<Rightarrow>
           list_ex (\<lambda>c. active c \<and> batch_type c = batch_type new \<and> metadata c = Some j)
                   others))"

datatype sql_error = LimitMustNotBeNegative | UniqueViolation

subsection \<open>\<^verbatim>\<open>claim_processing_batches\<close>\<close>

text \<open>The \<^verbatim>\<open>WHERE\<close> clause of the selection; a comparison with \<^verbatim>\<open>NULL\<close> is not true.\<close>

definition claimable :: "timestamp \<Rightarrow> batch \<Rightarrow> bool" where
  "claimable v_now b =
     (status b = Pending \<and>
      (case claim_expires_at b of None \<Rightarrow> True | Some t \<Rightarrow> t < v_now))"

text \<open>\<^verbatim>\<open>ORDER BY retry_count ASC, created_at ASC\<close>: the key, compared lexicographically.
  Rows with equal keys keep their order in the table (the sort is stable).\<close>

definition claim_order :: "batch \<Rightarrow> int \<times> timestamp" where
  "claim_order b = (retry_count b, created_at b)"

definition claimable_batches :: "timestamp \<Rightarrow> int \<Rightarrow> batch list \<Rightarrow> batch list" where
  "claimable_batches v_now p_limit rows =
     take (nat p_limit) (sort_key claim_order (filter (claimable v_now) rows))"

text \<open>The \<^verbatim>\<open>SET\<close> clause of the update, then the row trigger.\<close>

definition claim_row :: "env \<Rightarrow> string \<Rightarrow> timestamp \<Rightarrow> batch \<Rightarrow> batch" where
  "claim_row env v_worker_id v_now b =
     set_processing_batches_updated_at env
       (b\<lparr>status := Processing,
          claimed_by := Some v_worker_id,
          claim_expires_at := Some (v_now + minutes 5),
          started_at := Some (case started_at b of None \<Rightarrow> v_now | Some s \<Rightarrow> s),
          updated_at := v_now\<rparr>)"

text \<open>
  One call, with \<open>v_now\<close> the value of \<^verbatim>\<open>now()\<close>. A negative \<^verbatim>\<open>LIMIT\<close> makes the
  query fail. The update joins the table with the selected ids on \<open>id\<close>. SQL leaves the
  order of the rows that \<^verbatim>\<open>RETURNING\<close> yields open; the model lists them in the order of
  the selection, and the properties of the result are stated up to order.
\<close>

definition claim_processing_batches ::
  "env \<Rightarrow> timestamp \<Rightarrow> int \<Rightarrow> store \<Rightarrow> sql_error + (batch list \<times> store)" where
  "claim_processing_batches env v_now p_limit st =
     (if p_limit < 0 then Inl LimitMustNotBeNegative
      else
        (let v_worker_id = gen_random_uuid env (uuid_seq st);
             ids = map batch_id (claimable_batches v_now p_limit (processing_batches st));
             updated_batches =
               map (claim_row env v_worker_id v_now)
                   (concat (map (\<lambda>i. filter (\<lambda>b. batch_id b = i) (processing_batches st))
                                ids))
         in Inr (updated_batches,
                 st\<lparr>processing_batches :=
                       map (\<lambda>b. if batch_id b \<in> set ids
                                then claim_row env v_worker_id v_now b else b)
                           (processing_batches st),
                    uuid_seq := Suc (uuid_seq st)\<rparr>)))"

subsection \<open>\<^verbatim>\<open>reset_expired_batches\<close>\<close>

definition expired :: "timestamp \<Rightarrow> int \<Rightarrow> batch \<Rightarrow> bool" where
  "expired now p_expiry_minutes b =
     (status b = Processing \<and>
      (case claim_expires_at b of
         None \<Rightarrow> False
       | Some t \<Rightarrow> t < now - minutes p_expiry_minutes))"

definition reset_row :: "env \<Rightarrow> timestamp \<Rightarrow> batch \<Rightarrow> batch" where
  "reset_row env now b =
     set_processing_batches_updated_at env
       (b\<lparr>status := Pending,
          claimed_by := None,
          claim_expires_at := None,
          updated_at := now,
          retry_count := retry_count b,
          error_message :=
            Some ((case error_message b of None \<Rightarrow> [] | Some m \<Rightarrow> m)
                  @ '' Batch expired and was reset.'')\<rparr>)"

text \<open>The result is the pair of \<^verbatim>\<open>ROW_COUNT\<close> and the store after the update.\<close>

definition reset_expired_batches :: "env \<Rightarrow> timestamp \<Rightarrow> int \<Rightarrow> store \<Rightarrow> int \<times> store" where
  "reset_expired_batches env now p_expiry_minutes st =
     (int (length (filter (expired now p_expiry_minutes) (processing_batches st))),
      st\<lparr>processing_batches :=
            map (\<lambda>b. if expired now p_expiry_minutes b then reset_row env now b else b)
                (processing_batches st)\<rparr>)"

subsection \<open>\<^verbatim>\<open>requeue_dead_letter_items\<close>\<close>

definition requeueable :: "dead_letter_item \<Rightarrow> bool" where
  "requeueable d = (case dl_retry_count d of None \<Rightarrow> False | Some r \<Rightarrow> r < 3)"

definition requeue_selection :: "int \<Rightarrow> dead_letter_item list \<Rightarrow> dead_letter_item list" where
  "requeue_selection p_limit items =
     take (nat p_limit) (sort_key dl_created_at (filter requeueable items))"

definition coalesce0 :: "int option \<Rightarrow> int" where
  "coalesce0 v = (case v of None \<Rightarrow> 0 | Some r \<Rightarrow> r)"

text \<open>The \<^verbatim>\<open>INSERT\<close> of the loop body: the columns it names, the defaults of the others.\<close>

definition requeued_batch :: "uuid \<Rightarrow> timestamp \<Rightarrow> dead_letter_item \<Rightarrow> batch" where
  "requeued_batch new_id now v_item =
     \<lparr>batch_id = new_id,
      batch_type = item_type v_item,
      status = Pending,
      priority = 5,
      retry_count = coalesce0 (dl_retry_count v_item) + 1,
      items_total = Some 0,
      items_processed = Some 0,
      items_failed = Some 0,
      claimed_by = None,
      claim_expires_at = None,
      started_at = None,
      completed_at = None,
      error_message = None,
      metadata = dl_metadata v_item,
      created_at = now,
      updated_at = now\<rparr>"

definition bump_dead_letter :: "env \<Rightarrow> timestamp \<Rightarrow> dead_letter_item \<Rightarrow> dead_letter_item" where
  "bump_dead_letter env now d =
     set_dead_letter_items_updated_at env
       (d\<lparr>dl_retry_count := Some (coalesce0 (dl_retry_count d) + 1),
          dl_updated_at := now\<rparr>)"

text \<open>One pass of the loop body. The insert raises when the new batch collides on the
  unique index with an active batch, one of the table or one that an earlier pass
  inserted.\<close>

definition requeue_item ::
  "env \<Rightarrow> timestamp \<Rightarrow> dead_letter_item \<Rightarrow> store \<Rightarrow> sql_error + store" where
  "requeue_item env now v_item st =
     (let new = requeued_batch (gen_random_uuid env (uuid_seq st)) now v_item in
      if unique_metadata_conflict new (processing_batches st) then Inl UniqueViolation
      else
        Inr (st\<lparr>processing_batches := processing_batches st @ [new],
                dead_letter_items :=
                  map (\<lambda>d. if dl_id d = dl_id v_item then bump_dead_letter env now d else d)
                      (dead_letter_items st),
                uuid_seq := Suc (uuid_seq st)\<rparr>))"

text \<open>The \<^verbatim>\<open>FOR ... LOOP\<close> over the rows the query selected when the loop began. An
  exception ends the function, and its transaction undoes what the loop had done.\<close>

fun requeue_loop ::
  "env \<Rightarrow> timestamp \<Rightarrow> dead_letter_item list \<Rightarrow> int \<Rightarrow> store
   \<Rightarrow> sql_error + (int \<times> store)" where
  "requeue_loop env now [] v_count st = Inr (v_count, st)"
| "requeue_loop env now (v_item # rest) v_count st =
     (case requeue_item env now v_item st of
        Inl e \<Rightarrow> Inl e
      | Inr st1 \<Rightarrow> requeue_loop env now rest (v_count + 1) st1)"

definition requeue_dead_letter_items ::
  "env \<Rightarrow> timestamp \<Rightarrow> int \<Rightarrow> store \<Rightarrow> sql_error + (int \<times> store)" where
  "requeue_dead_letter_items env now p_limit st =
     (if p_limit < 0 then Inl LimitMustNotBeNegative
      else requeue_loop env now (requeue_selection p_limit (dead_letter_items st)) 0 st)"

section \<open>The client's queries\<close>

text \<open>\<^verbatim>\<open>.single()\<close>: the row when the query yields exactly one, \<^verbatim>\<open>null\<close> otherwise.\<close>

definition single :: "'a list \<Rightarrow> 'a option" where
  "single rows = (case rows of [r] \<Rightarrow> Some r | _ \<Rightarrow> None)"

text \<open>
  \<^verbatim>\<open>.select(columns, { count: 'exact', head: true })\<close> sends a \<^verbatim>\<open>HEAD\<close> request. The
  response has no body, so its \<^verbatim>\<open>data\<close> is \<^verbatim>\<open>null\<close>; the number of rows that match
  is its \<^verbatim>\<open>count\<close>.
\<close>

record count_response =
  data :: "int option"
  count :: "nat option"

definition select_head_count :: "('a \<Rightarrow> bool) \<Rightarrow> 'a list \<Rightarrow> count_response" where
  "select_head_count p rows = \<lparr>data = None, count = Some (length (filter p rows))\<rparr>"

text \<open>\<^verbatim>\<open>x || 0\<close> for a number or \<^verbatim>\<open>null\<close>.\<close>

definition or_zero :: "int option \<Rightarrow> int" where
  "or_zero x = (case x of None \<Rightarrow> 0 | Some n \<Rightarrow> n)"

text \<open>A value of a \<^verbatim>\<open>JSONB\<close> column in JavaScript (\<^verbatim>\<open>NULL\<close> arrives as \<^verbatim>\<open>null\<close>), and
  whether JavaScript takes it for true.\<close>

definition js_value :: "json option \<Rightarrow> json" where
  "js_value v = (case v of None \<Rightarrow> JNull | Some j \<Rightarrow> j)"

fun js_truthy :: "json \<Rightarrow> bool" where
  "js_truthy JNull = False"
| "js_truthy (JBool b) = b"
| "js_truthy (JNum n) = (n \<noteq> 0)"
| "js_truthy (JStr s) = (s \<noteq> [])"
| "js_truthy (JArr xs) = True"
| "js_truthy (JObj kvs) = True"

text \<open>The object of an \<^verbatim>\<open>.update({...})\<close>: the columns it names.\<close>

record batch_patch =
  p_status :: "processing_status option"
  p_retry_count :: "int option"
  p_error_message :: "string option"
  p_updated_at :: "timestamp option"
  p_completed_at :: "timestamp option"
  p_items_processed :: "int option"
  p_items_total :: "int option"

definition no_patch :: batch_patch where
  "no_patch = \<lparr>p_status = None, p_retry_count = None, p_error_message = None,
                p_updated_at = None, p_completed_at = None,
                p_items_processed = None, p_items_total = None\<rparr>"

definition apply_patch :: "batch_patch \<Rightarrow> batch \<Rightarrow> batch" where
  "apply_patch p b =
     b\<lparr>status := (case p_status p of None \<Rightarrow> status b | Some v \<Rightarrow> v),
       retry_count := (case p_retry_count p of None \<Rightarrow> retry_count b | Some v \<Rightarrow> v),
       error_message := (case p_error_message p of None \<Rightarrow> error_message b | Some v \<Rightarrow> Some v),
       updated_at := (case p_updated_at p of None \<Rightarrow> updated_at b | Some v \<Rightarrow> v),
       completed_at := (case p_completed_at p of None \<Rightarrow> completed_at b | Some v \<Rightarrow> Some v),
       items_processed :=
         (case p_items_processed p of None \<Rightarrow> items_processed b | Some v \<Rightarrow> Some v),
       items_total := (case p_items_total p of None \<Rightarrow> items_total b | Some v \<Rightarrow> Some v)\<rparr>"

text \<open>
  \<^verbatim>\<open>.from('processing_batches').update(patch).eq('id', batchId)\<close>, with the row trigger.
  When the update makes an inactive row active and the row collides on the unique index
  with another active row, the statement fails: the client returns the error, which the
  worker does not read, and the table is as before.
\<close>

definition update_eq_id :: "env \<Rightarrow> batch_patch \<Rightarrow> uuid \<Rightarrow> store \<Rightarrow> store" where
  "update_eq_id env patch batchId st =
     (let others = filter (\<lambda>c. batch_id c \<noteq> batchId) (processing_batches st);
          NEW = (\<lambda>b. set_processing_batches_updated_at env (apply_patch patch b))
      in if list_ex (\<lambda>b. batch_id b = batchId \<and> \<not> active b \<and>
                          unique_metadata_conflict (NEW b) others)
                    (processing_batches st)
         then st
         else st\<lparr>processing_batches :=
                   map (\<lambda>b. if batch_id b = batchId then NEW b else b)
                       (processing_batches st)\<rparr>)"

section \<open>The rate-limit gate\<close>

text \<open>
  The result is the promised value and, when the gate slept, the time it waited. \<open>now\<close>
  is the clock when the gate runs.
\<close>

definition rate_limit_row :: "string \<Rightarrow> string \<Rightarrow> store \<Rightarrow> rate_limit option" where
  "rate_limit_row apiName endpoint_name st =
     single (filter (\<lambda>r. api_name r = apiName \<and> endpoint r = endpoint_name)
                    (api_rate_limits st))"

definition checkRateLimit :: "timestamp \<Rightarrow> string \<Rightarrow> string \<Rightarrow> store \<Rightarrow> bool \<times> int option" where
  "checkRateLimit now apiName endpoint_name st =
     (case rate_limit_row apiName endpoint_name st of
        None \<Rightarrow> (True, None)
      | Some rateLimit \<Rightarrow>
          if requests_remaining rateLimit \<le> 0 \<and> later_than_date (reset_at rateLimit) now
          then (True, Some (getTime (reset_at rateLimit) - now))
          else (requests_remaining rateLimit > 0, None))"

section \<open>The worker\<close>

definition MAX_CONCURRENT_JOBS :: int where
  "MAX_CONCURRENT_JOBS = 3"

definition RETRY_LIMITS :: "(string \<times> int) list" where
  "RETRY_LIMITS =
     [(''discover-artists'', 3),
      (''album_page'', 5),
      (''track_page'', 5),
      (''producer_discovery'', 3),
      (''default'', 3)]"

text \<open>The limit that the table declares for a batch type: its entry, or the default.\<close>

definition declared_limit :: "string \<Rightarrow> int" where
  "declared_limit batchType =
     (case map_of RETRY_LIMITS batchType of
        None \<Rightarrow> the (map_of RETRY_LIMITS ''default'')
      | Some n \<Rightarrow> if n = 0 then the (map_of RETRY_LIMITS ''default'') else n)"

text \<open>
  The properties that the object \<^verbatim>\<open>RETRY_LIMITS\<close> inherits from \<^verbatim>\<open>Object.prototype\<close>. Each
  is a function, or for \<^verbatim>\<open>__proto__\<close> an object: a value that JavaScript takes for true
  and that is \<^verbatim>\<open>NaN\<close> as a number. A runtime that removes the accessor \<^verbatim>\<open>__proto__\<close>
  from \<^verbatim>\<open>Object.prototype\<close> gives that name the default limit instead; the properties
  proved of the retry branch set all these names aside.
\<close>

definition Object_prototype :: "string list" where
  "Object_prototype =
     [''constructor'', ''__defineGetter__'', ''__defineSetter__'', ''hasOwnProperty'',
      ''__lookupGetter__'', ''__lookupSetter__'', ''isPrototypeOf'',
      ''propertyIsEnumerable'', ''toString'', ''valueOf'', ''__proto__'',
      ''toLocaleString'']"

datatype js_limit = Limit int | Inherited

text \<open>
  \<^verbatim>\<open>RETRY_LIMITS[batchType as keyof typeof RETRY_LIMITS] || RETRY_LIMITS.default\<close>: an
  entry of the table when \<open>batchType\<close> is one of its keys, an inherited property when it
  names one (the cast is erased when the code runs), the default otherwise.
\<close>

definition retryLimit :: "string \<Rightarrow> js_limit" where
  "retryLimit batchType =
     (case map_of RETRY_LIMITS batchType of
        Some n \<Rightarrow> if n = 0 then Limit (the (map_of RETRY_LIMITS ''default'')) else Limit n
      | None \<Rightarrow>
          if batchType \<in> set Object_prototype then Inherited
          else Limit (the (map_of RETRY_LIMITS ''default'')))"

text \<open>\<^verbatim>\<open>retryCount < retryLimit\<close>: false when the limit is not a number.\<close>

definition less_than_limit :: "int \<Rightarrow> js_limit \<Rightarrow> bool" where
  "less_than_limit retryCount lim =
     (case lim of Limit l \<Rightarrow> retryCount < l | Inherited \<Rightarrow> False)"

text \<open>
  \<^verbatim>\<open>500 * Math.pow(2, retryCount - 1)\<close>, as far as \<^verbatim>\<open>new Date(Date.now() + backoffDelay)\<close>
  keeps it: a date holds whole milliseconds, so the fraction that a count below one
  produces is cut off.
\<close>

definition backoffDelay :: "int \<Rightarrow> int" where
  "backoffDelay retryCount =
     (if 1 \<le> retryCount then 500 * 2 ^ nat (retryCount - 1)
      else 500 div 2 ^ nat (1 - retryCount))"

text \<open>The insert of \<^verbatim>\<open>handleError\<close> into \<^verbatim>\<open>dead_letter_items\<close>, with the defaults of the
  columns it does not name.\<close>

definition insert_dead_letter ::
  "env \<Rightarrow> timestamp \<Rightarrow> string \<Rightarrow> string \<Rightarrow> uuid \<Rightarrow> json \<Rightarrow> store \<Rightarrow> store" where
  "insert_dead_letter env now batchType message batchId md st =
     st\<lparr>dead_letter_items :=
          dead_letter_items st
          @ [\<lparr>dl_id = gen_random_uuid env (uuid_seq st),
               item_type = batchType,
               dl_error_message = Some message,
               original_batch_id = batchId,
               original_item_id = batchId,
               dl_retry_count = Some 0,
               dl_metadata = Some md,
               dl_created_at = now,
               dl_updated_at = now\<rparr>],
        uuid_seq := Suc (uuid_seq st)\<rparr>"

text \<open>
  \<^verbatim>\<open>handleError(batchId, error, batchType)\<close>; \<open>message\<close> is \<^verbatim>\<open>error.message\<close> and \<open>now\<close>
  the clock: one reading stands for all readings of the clock within a call, here and
  in the functions below. The client reports a failed statement in its result and does
  not throw, so the \<^verbatim>\<open>catch\<close> has no branch here. The log lines are not part of the
  model.
\<close>

definition retry_patch :: "timestamp \<Rightarrow> int \<Rightarrow> string \<Rightarrow> batch_patch" where
  "retry_patch now retryCount message =
     no_patch\<lparr>p_status := Some Pending,
              p_retry_count := Some retryCount,
              p_error_message := Some message,
              p_updated_at := Some (now + backoffDelay retryCount)\<rparr>"

definition error_patch :: "timestamp \<Rightarrow> string \<Rightarrow> batch_patch" where
  "error_patch now message =
     no_patch\<lparr>p_status := Some Error,
              p_error_message := Some message,
              p_completed_at := Some now\<rparr>"

definition select_batch :: "uuid \<Rightarrow> store \<Rightarrow> batch option" where
  "select_batch batchId st =
     single (filter (\<lambda>b. batch_id b = batchId) (processing_batches st))"

definition handleError :: "env \<Rightarrow> timestamp \<Rightarrow> uuid \<Rightarrow> string \<Rightarrow> string \<Rightarrow> store \<Rightarrow> store" where
  "handleError env now batchId message batchType st =
     (let batch = select_batch batchId st;
          retryCount = (case batch of None \<Rightarrow> 0 | Some b \<Rightarrow> retry_count b) + 1
      in if less_than_limit retryCount (retryLimit batchType) then
           update_eq_id env (retry_patch now retryCount message) batchId st
         else
           insert_dead_letter env now batchType message batchId
             (let md = (case batch of None \<Rightarrow> JNull | Some b \<Rightarrow> js_value (metadata b))
              in if js_truthy md then md else JObj [])
             (update_eq_id env (error_patch now message) batchId st))"

text \<open>What invoking an edge function comes to: a response with its \<^verbatim>\<open>ok\<close> flag and
  text, or a \<^verbatim>\<open>fetch\<close> that throws.\<close>

datatype fetch_result = Responded bool string | Threw string

definition function_name :: "string \<Rightarrow> string" where
  "function_name batchType =
     (if batchType = ''album_discovery'' then ''process-album-page''
      else if batchType = ''album_page'' then ''process-album-page''
      else if batchType = ''track_discovery'' \<or> batchType = ''track_page''
        then ''process-track-page''
      else if batchType = ''producer_discovery'' then ''identify-producers''
      else batchType)"

definition completed_patch :: "timestamp \<Rightarrow> batch_patch" where
  "completed_patch now =
     no_patch\<lparr>p_status := Some Completed,
              p_completed_at := Some now,
              p_items_processed := Some 1,
              p_items_total := Some 1\<rparr>"

text \<open>\<^verbatim>\<open>processBatch\<close>; \<open>invoke\<close> stands for the edge functions, which the worker reaches
  over HTTP. What an edge function itself writes to the store (child batches) is not
  part of the model.\<close>

definition processBatch ::
  "env \<Rightarrow> (string \<Rightarrow> json \<Rightarrow> fetch_result) \<Rightarrow> timestamp \<Rightarrow> uuid \<Rightarrow> string \<Rightarrow> json
   \<Rightarrow> store \<Rightarrow> bool \<times> store" where
  "processBatch env invoke now batchId batchType md st =
     (let functionName = function_name batchType in
      case invoke functionName md of
        Responded True body \<Rightarrow> (True, update_eq_id env (completed_patch now) batchId st)
      | Responded False errorText \<Rightarrow>
          (False,
           handleError env now batchId
             (''Function '' @ functionName @ '' failed: '' @ errorText) batchType st)
      | Threw message \<Rightarrow> (False, handleError env now batchId message batchType st))"

text \<open>The claimed batches, dispatched in the order of the array; each dispatch settles
  with the value of \<^verbatim>\<open>processBatch\<close>. The dispatches run concurrently and write to
  different rows; the model takes their statements one dispatch after the other.\<close>

fun process_all ::
  "env \<Rightarrow> (string \<Rightarrow> json \<Rightarrow> fetch_result) \<Rightarrow> timestamp \<Rightarrow> batch list \<Rightarrow> store
   \<Rightarrow> bool list \<times> store" where
  "process_all env invoke now [] st = ([], st)"
| "process_all env invoke now (b # bs) st =
     (case processBatch env invoke now (batch_id b) (batch_type b) (js_value (metadata b)) st of
        (r, st1) \<Rightarrow>
          (case process_all env invoke now bs st1 of
             (rs, st2) \<Rightarrow> (r # rs, st2)))"

record tick_result =
  claimed :: nat
  completed :: "nat option"
  failed :: "nat option"
  error :: "string option"

text \<open>What a tick does besides its result: the events it logs itself and the calls of
  \<^verbatim>\<open>claim_processing_batches\<close> it makes, with their \<^verbatim>\<open>p_limit\<close>.\<close>

datatype effect = Log string | RpcClaim int

definition sql_message :: "sql_error \<Rightarrow> string" where
  "sql_message e = (case e of LimitMustNotBeNegative \<Rightarrow> ''LIMIT must not be negative'')"

text \<open>The tick from the point where \<open>inProgressCount\<close> has been read.\<close>

definition claim_and_process_from ::
  "int option \<Rightarrow> env \<Rightarrow> (string \<Rightarrow> json \<Rightarrow> fetch_result) \<Rightarrow> timestamp \<Rightarrow> store
   \<Rightarrow> tick_result \<times> effect list \<times> store" where
  "claim_and_process_from inProgressCount env invoke now st =
     (if or_zero inProgressCount \<ge> MAX_CONCURRENT_JOBS then
        (\<lparr>claimed = 0, completed = None, failed = None, error = None\<rparr>,
         [Log ''max_concurrent_jobs_reached''], st)
      else
        (let jobsToFetch = MAX_CONCURRENT_JOBS - or_zero inProgressCount in
         case claim_processing_batches env now jobsToFetch st of
           Inl e \<Rightarrow>
             (\<lparr>claimed = 0, completed = None, failed = None, error = Some (sql_message e)\<rparr>,
              [RpcClaim jobsToFetch, Log ''claim_error''], st)
         | Inr (batches, st1) \<Rightarrow>
             if batches = [] then
               (\<lparr>claimed = 0, completed = None, failed = None, error = None\<rparr>,
                [RpcClaim jobsToFetch], st1)
             else
               (case process_all env invoke now batches st1 of
                  (results, st2) \<Rightarrow>
                    (\<lparr>claimed = length batches,
                      completed = Some (length (filter (\<lambda>r. r) results)),
                      failed = Some (length (filter (\<lambda>r. \<not> r) results)),
                      error = None\<rparr>,
                     [RpcClaim jobsToFetch, Log ''batches_claimed''], st2))))"

text \<open>
  \<^verbatim>\<open>claimAndProcessBatches\<close>: the count query, whose \<^verbatim>\<open>data\<close> the tick takes for the
  number of batches in progress, then the rest.
\<close>

definition claimAndProcessBatches ::
  "env \<Rightarrow> (string \<Rightarrow> json \<Rightarrow> fetch_result) \<Rightarrow> timestamp \<Rightarrow> store
   \<Rightarrow> tick_result \<times> effect list \<times> store" where
  "claimAndProcessBatches env invoke now st =
     (let inProgressCount =
            data (select_head_count (\<lambda>b. status b = Processing) (processing_batches st))
      in claim_and_process_from inProgressCount env invoke now st)"

section \<open>The monitor\<close>

definition stalled_batches_threshold :: int where
  "stalled_batches_threshold = 5"

definition processing_time_minutes :: int where
  "processing_time_minutes = 30"

definition dead_letter_items_threshold :: int where
  "dead_letter_items_threshold = 10"

definition error_batches_threshold :: int where
  "error_batches_threshold = 20"

text \<open>An alert and an action of the report; the message of an alert, a formatting of
  the numbers, is left out.\<close>

record alert =
  level :: string
  metric :: string
  threshold :: "int option"
  api :: "string option"
  alert_endpoint :: "string option"

record remediation =
  action :: string
  action_count :: nat
  action_timestamp :: timestamp

record health_report =
  alerts :: "alert list"
  dead_letter_items_24h :: int
  error_batches_24h :: int
  stalled_batches :: nat
  actions :: "remediation list"

text \<open>The query for stalled batches: \<^verbatim>\<open>.eq('status', 'processing').lt('started_at', t)\<close>.\<close>

definition stalled :: "timestamp \<Rightarrow> batch \<Rightarrow> bool" where
  "stalled now b =
     (status b = Processing \<and>
      (case started_at b of
         None \<Rightarrow> False
       | Some s \<Rightarrow> s < now - processing_time_minutes * 60 * 1000))"

text \<open>
  \<^verbatim>\<open>checkSystemHealth\<close>, with the report and the store it leaves. The metrics
  \<^verbatim>\<open>queue_depths\<close> and \<^verbatim>\<open>rate_limits\<close> of the report, which no decision reads, are not
  modelled; an absent \<^verbatim>\<open>actions\<close> is the empty list.
\<close>

definition checkSystemHealth :: "env \<Rightarrow> timestamp \<Rightarrow> store \<Rightarrow> health_report \<times> store" where
  "checkSystemHealth env now st =
     (let deadLetterCount =
            data (select_head_count (\<lambda>d. dl_created_at d \<ge> now - 24 * 60 * 60 * 1000)
                                    (dead_letter_items st));
          alerts1 =
            (if or_zero deadLetterCount > dead_letter_items_threshold
             then [\<lparr>level = ''warning'', metric = ''dead_letter_items_24h'',
                     threshold = Some dead_letter_items_threshold,
                     api = None, alert_endpoint = None\<rparr>]
             else []);
          errorBatchesCount =
            data (select_head_count
                    (\<lambda>b. status b = Error \<and> updated_at b \<ge> now - 24 * 60 * 60 * 1000)
                    (processing_batches st));
          alerts2 =
            (if or_zero errorBatchesCount > error_batches_threshold
             then [\<lparr>level = ''warning'', metric = ''error_batches_24h'',
                     threshold = Some error_batches_threshold,
                     api = None, alert_endpoint = None\<rparr>]
             else []);
          stalledBatches = filter (stalled now) (processing_batches st);
          stalledCount = length stalledBatches;
          alerts3 =
            (if int stalledCount > stalled_batches_threshold
             then [\<lparr>level = ''critical'', metric = ''stalled_batches'',
                     threshold = Some stalled_batches_threshold,
                     api = None, alert_endpoint = None\<rparr>]
             else []);
          alerts4 =
            map (\<lambda>limit. \<lparr>level = ''warning'', metric = ''rate_limit'', threshold = None,
                            api = Some (api_name limit),
                            alert_endpoint = Some (endpoint limit)\<rparr>)
                (filter (remaining_percent_low env) (api_rate_limits st));
          all_alerts = alerts1 @ alerts2 @ alerts3 @ alerts4;
          remediate = (list_ex (\<lambda>a. level a = ''critical'') all_alerts \<and> stalledCount > 0)
      in (\<lparr>alerts = all_alerts,
           dead_letter_items_24h = or_zero deadLetterCount,
           error_batches_24h = or_zero errorBatchesCount,
           stalled_batches = stalledCount,
           actions =
             (if remediate
              then [\<lparr>action = ''reset_stalled_batches'', action_count = stalledCount,
                      action_timestamp = now\<rparr>]
              else [])\<rparr>,
          if remediate
          then snd (reset_expired_batches env now processing_time_minutes st)
          else st))"

section \<open>Sample data\<close>

text \<open>The row that an insert naming only \<^verbatim>\<open>batch_type\<close> and \<^verbatim>\<open>metadata\<close> creates, from the
  defaults of the table.\<close>

definition new_batch :: "uuid \<Rightarrow> string \<Rightarrow> json option \<Rightarrow> timestamp \<Rightarrow> batch" where
  "new_batch new_id bt md now =
     \<lparr>batch_id = new_id, batch_type = bt, status = Pending, priority = 5, retry_count = 0,
      items_total = Some 0, items_processed = Some 0, items_failed = Some 0,
      claimed_by = None, claim_expires_at = None, started_at = None, completed_at = None,
      error_message = None, metadata = md, created_at = now, updated_at = now\<rparr>"

text \<open>A batch as a claim at time \<open>t\<close> leaves it.\<close>

definition leased_batch :: "uuid \<Rightarrow> string \<Rightarrow> timestamp \<Rightarrow> batch" where
  "leased_batch new_id bt t =
     (new_batch new_id bt (Some (JObj [(''id'', JStr new_id)])) t)
       \<lparr>status := Processing, claimed_by := Some ''worker'',
        claim_expires_at := Some (t + minutes 5), started_at := Some t\<rparr>"

definition new_dead_letter :: "uuid \<Rightarrow> string \<Rightarrow> int option \<Rightarrow> timestamp \<Rightarrow> dead_letter_item" where
  "new_dead_letter new_id it rc now =
     \<lparr>dl_id = new_id, item_type = it, dl_error_message = Some ''failed'',
      original_batch_id = ''batch-0'', original_item_id = ''batch-0'',
      dl_retry_count = rc, dl_metadata = Some (JObj [(''artist_id'', JStr new_id)]),
      dl_created_at = now, dl_updated_at = now\<rparr>"

definition store_of :: "batch list \<Rightarrow> dead_letter_item list \<Rightarrow> rate_limit list \<Rightarrow> store" where
  "store_of bs ds rs =
     \<lparr>processing_batches = bs, dead_letter_items = ds, api_rate_limits = rs, uuid_seq = 0\<rparr>"

text \<open>An environment whose triggers keep the \<open>updated_at\<close> that the statement assigned.\<close>

definition plain_env :: env where
  "plain_env =
     \<lparr>gen_random_uuid = (\<lambda>n. ''uuid-'' @ replicate n CHR ''i''),
      batch_updated_at_column = updated_at,
      dead_letter_updated_at_column = dl_updated_at,
      remaining_percent_low = (\<lambda>r. False)\<rparr>"

text \<open>An environment whose triggers stamp every updated row with the time \<open>t\<close>.\<close>

definition stamping_env :: "timestamp \<Rightarrow> env" where
  "stamping_env t =
     plain_env\<lparr>batch_updated_at_column := (\<lambda>NEW. t),
               dead_letter_updated_at_column := (\<lambda>NEW. t)\<rparr>"


text \<open>An \<^verbatim>\<open>album_page\<close> batch with a given retry count and metadata.\<close>

definition album_batch :: "int \<Rightarrow> json option \<Rightarrow> batch" where
  "album_batch rc md = (new_batch ''b1'' ''album_page'' md 0)\<lparr>retry_count := rc\<rparr>"

text \<open>Three pending batches, the second after one retry.\<close>

definition three_pending :: store where
  "three_pending =
     store_of [new_batch ''a'' ''album_page'' None 10,
               (new_batch ''b'' ''album_page'' None 5)\<lparr>retry_count := 1\<rparr>,
               new_batch ''c'' ''album_page'' None 3] [] []"



text \<open>Three batches in progress and one waiting; six batches claimed at time 0.\<close>

definition three_in_progress :: store where
  "three_in_progress =
     store_of [leased_batch ''p1'' ''album_page'' 900,
               leased_batch ''p2'' ''album_page'' 900,
               leased_batch ''p3'' ''track_page'' 900,
               new_batch ''q1'' ''track_page'' (Some (JObj [])) 950] [] []"

definition six_stalled :: store where
  "six_stalled =
     store_of (map (\<lambda>i. leased_batch i ''album_page'' 0) [''s1'', ''s2'', ''s3'', ''s4'', ''s5'', ''s6''])
       [] []"

section \<open>Properties of the rate-limit gate\<close>





text \<open>A \<open>reset_at\<close> delivered as text never makes the gate sleep.\<close>

lemma checkRateLimit_text_never_sleeps:
  "rate_limit_row a e st = Some r \<Longrightarrow> reset_at r = IsoText t \<Longrightarrow>
     checkRateLimit now a e st = (requests_remaining r > 0, None)"
  by (simp add: checkRateLimit_def later_than_date_def)

section \<open>Properties of the scheduler\<close>

lemma split_not_Nil: "split c xs \<noteq> []"
  by (induction xs) (auto split: list.splits)

lemma hd_split: "hd (split c xs) = takeWhile (\<lambda>x. x \<noteq> c) xs"
  by (induction xs) (auto split: list.splits simp: split_not_Nil)

lemma split_second:
  "x \<noteq> c \<Longrightarrow> split c (x # c # rest) ! 1 = takeWhile (\<lambda>y. y \<noteq> c) rest"
proof -
  assume "x \<noteq> c"
  then have "split c (x # c # rest) = [x] # split c rest" by simp
  then have "split c (x # c # rest) ! 1 = hd (split c rest)"
    by (simp add: hd_conv_nth split_not_Nil)
  then show ?thesis by (simp add: hd_split)
qed

lemma digit_not_space: "is_digit c \<Longrightarrow> \<not> is_space c"
  by (auto simp: is_digit_def is_space_def)

lemma digit_not_special:
  "is_digit c \<Longrightarrow> c \<noteq> CHR ''-'' \<and> c \<noteq> CHR ''+'' \<and> c \<noteq> CHR '' '' \<and> c \<noteq> CHR ''/''
     \<and> c \<noteq> CHR ''x'' \<and> c \<noteq> CHR ''X'' \<and> c \<noteq> CHR ''*''"
  by (auto simp: is_digit_def)

lemma space_not_x: "is_space c \<Longrightarrow> c \<noteq> CHR ''x'' \<and> c \<noteq> CHR ''X''"
  by (auto simp: is_space_def)

lemma parseInt_digits:
  assumes "ds \<noteq> []" and "\<forall>c\<in>set ds. is_digit c" and "rest = [] \<or> is_space (hd rest)"
  shows "parseInt (ds @ rest) = Some (int (dec_value ds))"
proof -
  obtain d ds' where ds: "ds = d # ds'" using assms(1) by (cases ds) auto
  have d: "is_digit d" using assms(2) ds by simp
  have tw: "takeWhile is_digit (ds @ rest) = ds"
    using assms(2,3) by (cases rest) (auto simp: takeWhile_append digit_not_space)
  have nohex: "\<not> startsWith (ds @ rest) ''0x''" "\<not> startsWith (ds @ rest) ''0X''"
    using assms(2,3) ds digit_not_special space_not_x
    by (cases ds'; cases rest; auto simp: startsWith_def)+
  show ?thesis
    using d digit_not_space[OF d] digit_not_special[OF d] tw nohex assms(1)
    by (simp add: parseInt_def ds Let_def)
qed

lemma minute_divides_nat:
  "minute_divides m (Some (int n)) = (0 < n \<and> m mod n = 0)"
  by (auto simp: minute_divides_def simp flip: of_nat_mod)


lemma shouldRunSchedule_interval:
  "shouldRunSchedule m (CHR ''*'' # CHR ''/'' # rest) =
     minute_divides m
       (parseInt (takeWhile (\<lambda>c. c \<noteq> CHR '' '') (takeWhile (\<lambda>c. c \<noteq> CHR ''/'') rest)))"
proof -
  have "split CHR ''/'' (''*/'' @ rest) ! 1 = takeWhile (\<lambda>c. c \<noteq> CHR ''/'') rest"
    using split_second[of "CHR ''*''" "CHR ''/''" rest] by simp
  moreover have "startsWith (CHR ''*'' # CHR ''/'' # rest) ''*/''" by (simp add: startsWith_def)
  ultimately show ?thesis by (simp add: shouldRunSchedule_def hd_split)
qed

lemma shouldRunSchedule_every_N:
  assumes "ds \<noteq> []" and "\<forall>c\<in>set ds. is_digit c" and "0 < dec_value ds"
  shows "shouldRunSchedule m (''*/'' @ ds @ '' * * * *'') = (m mod dec_value ds = 0)"
proof -
  have a: "takeWhile (\<lambda>c. c \<noteq> CHR ''/'') (ds @ '' * * * *'') = ds @ '' * * * *''"
    using assms(2) digit_not_special by (auto simp: takeWhile_append)
  have b: "takeWhile (\<lambda>c. c \<noteq> CHR '' '') (ds @ '' * * * *'') = ds"
    using assms(2) digit_not_special by (auto simp: takeWhile_append)
  have "parseInt ds = Some (int (dec_value ds))"
    using parseInt_digits[OF assms(1,2), of "[]"] by simp
  then show ?thesis
    using assms(3) by (simp add: shouldRunSchedule_interval a b minute_divides_nat)
qed

lemma shouldRunSchedule_exact_minute:
  assumes "ds \<noteq> []" and "\<forall>c\<in>set ds. is_digit c" and "is_space c"
  shows "shouldRunSchedule m (ds @ c # rest) = (m = dec_value ds)"
proof -
  obtain d ds' where ds: "ds = d # ds'" using assms(1) by (cases ds) auto
  have d: "is_digit d" using assms(2) ds by simp
  have c: "\<not> is_digit c" using assms(3) digit_not_space by blast
  have ne: "ds @ c # rest \<noteq> ''* * * * *''" "\<not> startsWith (ds @ c # rest) ''*/''"
    using digit_not_special[OF d] by (auto simp: ds startsWith_def)
  have dts: "digits_then_space (ds @ c # rest)"
    using assms c by (simp add: digits_then_space_def takeWhile_append dropWhile_append)
  have tok: "\<exists>r. takeWhile (\<lambda>x. x \<noteq> CHR '' '') (ds @ c # rest) = ds @ r \<and> (r = [] \<or> is_space (hd r))"
    using assms(2,3) digit_not_special by (auto simp: takeWhile_append)
  then obtain r where r: "takeWhile (\<lambda>x. x \<noteq> CHR '' '') (ds @ c # rest) = ds @ r"
      "r = [] \<or> is_space (hd r)" by blast
  have "parseInt (ds @ r) = Some (int (dec_value ds))"
    using parseInt_digits[OF assms(1,2) r(2)] .
  then show ?thesis
    using ne dts by (simp add: shouldRunSchedule_def hd_split r(1))
qed

text \<open>
  Claim C9, as the code has it. At every minute \<open>m\<close> the matcher fires \<^verbatim>\<open>* * * * *\<close>;
  fires \<^verbatim>\<open>*/N * * * *\<close>, for a decimal \<open>N\<close> above zero, exactly when \<open>m mod N = 0\<close>; fires
  a pattern that begins with digits followed by a white space exactly when \<open>m\<close> is that
  number; fires any pattern that starts with \<^verbatim>\<open>*/\<close> exactly when the number that
  \<^verbatim>\<open>parseInt\<close> reads after the slash (up to the next slash or space) is not zero and
  divides \<open>m\<close>, whatever follows; and never fires a pattern that is none of these.
  So \<^verbatim>\<open>*/2 * * * *\<close> fires at the even minutes, \<^verbatim>\<open>*/15 * * * *\<close> at 0, 15, 30 and 45,
  \<^verbatim>\<open>0 * * * *\<close> at minute 0 only and \<^verbatim>\<open>xyz\<close> never.
\<close>

theorem shouldRunSchedule_patterns:
  "shouldRunSchedule m ''* * * * *''
   \<and> (\<forall>ds. ds \<noteq> [] \<and> (\<forall>c\<in>set ds. is_digit c) \<and> 0 < dec_value ds \<longrightarrow>
         shouldRunSchedule m (''*/'' @ ds @ '' * * * *'') = (m mod dec_value ds = 0))
   \<and> (\<forall>ds c rest. ds \<noteq> [] \<and> (\<forall>c\<in>set ds. is_digit c) \<and> is_space c \<longrightarrow>
         shouldRunSchedule m (ds @ c # rest) = (m = dec_value ds))
   \<and> (\<forall>rest. shouldRunSchedule m (''*/'' @ rest) =
         minute_divides m
           (parseInt (takeWhile (\<lambda>c. c \<noteq> CHR '' '') (takeWhile (\<lambda>c. c \<noteq> CHR ''/'') rest))))
   \<and> (\<forall>p. p \<noteq> ''* * * * *'' \<and> \<not> startsWith p ''*/'' \<and> \<not> digits_then_space p \<longrightarrow>
         \<not> shouldRunSchedule m p)
   \<and> [k \<leftarrow> [0..<60]. shouldRunSchedule k ''*/2 * * * *'']
       = [0, 2, 4, 6, 8, 10, 12, 14, 16, 18, 20, 22, 24, 26, 28, 30, 32, 34, 36, 38, 40,
          42, 44, 46, 48, 50, 52, 54, 56, 58]
   \<and> [k \<leftarrow> [0..<60]. shouldRunSchedule k ''*/15 * * * *''] = [0, 15, 30, 45]
   \<and> [k \<leftarrow> [0..<60]. shouldRunSchedule k ''0 * * * *''] = [0]
   \<and> [k \<leftarrow> [0..<60]. shouldRunSchedule k ''xyz''] = []"
proof -
  have 1: "shouldRunSchedule m ''* * * * *''" by (simp add: shouldRunSchedule_def)
  have 2: "\<forall>ds. ds \<noteq> [] \<and> (\<forall>c\<in>set ds. is_digit c) \<and> 0 < dec_value ds \<longrightarrow>
         shouldRunSchedule m (''*/'' @ ds @ '' * * * *'') = (m mod dec_value ds = 0)"
  proof (intro allI impI)
    fix ds :: string
    assume a: "ds \<noteq> [] \<and> (\<forall>c\<in>set ds. is_digit c) \<and> 0 < dec_value ds"
    then have a1: "ds \<noteq> []" and a2: "\<forall>c\<in>set ds. is_digit c" and a3: "0 < dec_value ds"
      by simp_all
    show "shouldRunSchedule m (''*/'' @ ds @ '' * * * *'') = (m mod dec_value ds = 0)"
      by (rule shouldRunSchedule_every_N[OF a1 a2 a3])
  qed
  have 3: "\<forall>ds c rest. ds \<noteq> [] \<and> (\<forall>c\<in>set ds. is_digit c) \<and> is_space c \<longrightarrow>
         shouldRunSchedule m (ds @ c # rest) = (m = dec_value ds)"
  proof (intro allI impI)
    fix ds :: string and c :: char and rest :: string
    assume a: "ds \<noteq> [] \<and> (\<forall>c\<in>set ds. is_digit c) \<and> is_space c"
    then have a1: "ds \<noteq> []" and a2: "\<forall>c\<in>set ds. is_digit c" and a3: "is_space c"
      by simp_all
    show "shouldRunSchedule m (ds @ c # rest) = (m = dec_value ds)"
      by (rule shouldRunSchedule_exact_minute[OF a1 a2 a3])
  qed
  have 4: "\<forall>rest. shouldRunSchedule m (''*/'' @ rest) =
         minute_divides m
           (parseInt (takeWhile (\<lambda>c. c \<noteq> CHR '' '') (takeWhile (\<lambda>c. c \<noteq> CHR ''/'') rest)))"
    by (simp add: shouldRunSchedule_interval)
  have 5: "\<forall>p. p \<noteq> ''* * * * *'' \<and> \<not> startsWith p ''*/'' \<and> \<not> digits_then_space p \<longrightarrow>
         \<not> shouldRunSchedule m p" by (simp add: shouldRunSchedule_def)
  have 6: "[k \<leftarrow> [0..<60]. shouldRunSchedule k ''*/2 * * * *'']
       = [0, 2, 4, 6, 8, 10, 12, 14, 16, 18, 20, 22, 24, 26, 28, 30, 32, 34, 36, 38, 40,
          42, 44, 46, 48, 50, 52, 54, 56, 58]" by code_simp
  have 7: "[k \<leftarrow> [0..<60]. shouldRunSchedule k ''*/15 * * * *''] = [0, 15, 30, 45]" by code_simp
  have 8: "[k \<leftarrow> [0..<60]. shouldRunSchedule k ''0 * * * *''] = [0]" by code_simp
  have 9: "[k \<leftarrow> [0..<60]. shouldRunSchedule k ''xyz''] = []" by code_simp
  show ?thesis
    by (intro conjI) (rule 1, rule 2, rule 3, rule 4, rule 5, rule 6, rule 7, rule 8, rule 9)
qed

theorem shouldRunSchedule_patterns_witness:
  "shouldRunSchedule 30 ''*/15 * * * *'' \<and> \<not> shouldRunSchedule 31 ''*/15 * * * *''
   \<and> shouldRunSchedule 7 ''7 * * * *'' \<and> \<not> shouldRunSchedule 8 ''7 * * * *''
   \<and> \<not> shouldRunSchedule 0 ''xyz''"
proof -
  have d: "''15'' \<noteq> [] \<and> (\<forall>c\<in>set ''15''. is_digit c) \<and> 0 < dec_value ''15''"
    and v: "dec_value ''15'' = 15" "dec_value ''7'' = 7"
    and e: "''7'' \<noteq> [] \<and> (\<forall>c\<in>set ''7''. is_digit c) \<and> is_space CHR '' ''"
    and x: "''xyz'' \<noteq> ''* * * * *'' \<and> \<not> startsWith ''xyz'' ''*/'' \<and> \<not> digits_then_space ''xyz''"
    by (simp_all add: is_digit_def is_space_def dec_value_def digit_val_def startsWith_def
          digits_then_space_def)
  note every = shouldRunSchedule_patterns[THEN conjunct2, THEN conjunct1, rule_format]
  note exact = shouldRunSchedule_patterns[THEN conjunct2, THEN conjunct2, THEN conjunct1, rule_format]
  note other = shouldRunSchedule_patterns[THEN conjunct2, THEN conjunct2, THEN conjunct2,
                 THEN conjunct2, THEN conjunct1, rule_format]
  have a: "shouldRunSchedule 30 (''*/'' @ ''15'' @ '' * * * *'') = (30 mod dec_value ''15'' = 0)"
    by (rule every[OF d])
  have b: "shouldRunSchedule 31 (''*/'' @ ''15'' @ '' * * * *'') = (31 mod dec_value ''15'' = 0)"
    by (rule every[OF d])
  have c: "shouldRunSchedule 7 (''7'' @ CHR '' '' # ''* * * *'') = (7 = dec_value ''7'')"
    by (rule exact[OF e])
  have c': "shouldRunSchedule 8 (''7'' @ CHR '' '' # ''* * * *'') = (8 = dec_value ''7'')"
    by (rule exact[OF e])
  have f: "\<not> shouldRunSchedule 0 ''xyz''"
    by (rule other[OF x])
  show ?thesis using a b c c' f by (simp add: v)
qed

text \<open>
  The claim as stated, that no other pattern ever fires, fails: the cron pattern
  \<^verbatim>\<open>*/5 9 * * *\<close> is neither \<^verbatim>\<open>* * * * *\<close> nor of the form \<^verbatim>\<open>*/N * * * *\<close> nor begins with
  digits, and it fires at minute 10.
\<close>

theorem shouldRunSchedule_other_pattern_counterexample:
  "shouldRunSchedule 10 ''*/5 9 * * *''
   \<and> ''*/5 9 * * *'' \<noteq> ''* * * * *''
   \<and> ''*/5 9 * * *'' \<noteq> ''*/5 * * * *''
   \<and> \<not> digits_then_space ''*/5 9 * * *''"
  by code_simp

section \<open>Properties of the retry policy\<close>

lemma single_filter_map:
  assumes "\<And>x. P (f x) = P x"
  shows "single (filter P (map f xs)) = map_option f (single (filter P xs))"
proof -
  have "filter P (map f xs) = map f (filter P xs)"
    using assms by (induction xs) auto
  then show ?thesis
    by (simp add: single_def split: list.splits)
qed

lemma batch_id_trigger [simp]:
  "batch_id (set_processing_batches_updated_at env b) = batch_id b"
  by (simp add: set_processing_batches_updated_at_def)

lemma batch_id_apply_patch [simp]: "batch_id (apply_patch p b) = batch_id b"
  by (simp add: apply_patch_def)

lemma not_active_trigger_apply_patch:
  assumes "p_status p = Some s" and "s \<noteq> Pending" and "s \<noteq> Processing"
  shows "\<not> active (set_processing_batches_updated_at env (apply_patch p b))"
  using assms
  by (simp add: active_def set_processing_batches_updated_at_def apply_patch_def)

lemma update_eq_id_leaving:
  assumes "p_status p = Some s" and "s \<noteq> Pending" and "s \<noteq> Processing"
  shows "update_eq_id env p j st
     = st\<lparr>processing_batches :=
            map (\<lambda>b. if batch_id b = j
                      then set_processing_batches_updated_at env (apply_patch p b) else b)
                (processing_batches st)\<rparr>"
  unfolding update_eq_id_def Let_def
  by (simp add: list_ex_iff unique_metadata_conflict_def
        not_active_trigger_apply_patch[OF assms])

lemma update_eq_id_staying:
  assumes "\<forall>b\<in>set (processing_batches st). batch_id b = j \<longrightarrow> active b"
  shows "update_eq_id env p j st
     = st\<lparr>processing_batches :=
            map (\<lambda>b. if batch_id b = j
                      then set_processing_batches_updated_at env (apply_patch p b) else b)
                (processing_batches st)\<rparr>"
  unfolding update_eq_id_def Let_def
  using assms by (auto simp: list_ex_iff)

lemma select_batch_map:
  "select_batch i (st\<lparr>processing_batches :=
            map (\<lambda>b. if batch_id b = j then f (g b) else b) (processing_batches st)\<rparr>)
   = map_option (\<lambda>b. if batch_id b = j then f (g b) else b) (select_batch i st)"
  if "\<And>b. batch_id (f (g b)) = batch_id b"
  unfolding select_batch_def
  by (simp add: single_filter_map that)

lemma select_batch_rows:
  assumes "select_batch i st = Some b"
  shows "[r \<leftarrow> processing_batches st. batch_id r = i] = [b]"
  using assms unfolding select_batch_def single_def
  by (simp split: list.splits)

lemma map_the_selected:
  assumes "select_batch i st = Some b"
  shows "map (\<lambda>r. if batch_id r = i then f r else r) (processing_batches st)
       = map (\<lambda>r. if batch_id r = i then f b else r) (processing_batches st)"
proof (rule map_cong[OF refl])
  fix r assume r: "r \<in> set (processing_batches st)"
  show "(if batch_id r = i then f r else r) = (if batch_id r = i then f b else r)"
  proof (cases "batch_id r = i")
    case True
    then have "r \<in> set [r \<leftarrow> processing_batches st. batch_id r = i]" using r by simp
    then have "r = b" unfolding select_batch_rows[OF assms] by simp
    then show ?thesis by simp
  qed simp
qed

lemma select_batch_id: "select_batch i st = Some b \<Longrightarrow> batch_id b = i"
  unfolding select_batch_def single_def
  by (auto split: list.splits dest!: arg_cong[where f = set])

lemma select_batch_insert_dead_letter [simp]:
  "select_batch i (insert_dead_letter env now bt msg j md st) = select_batch i st"
  by (simp add: select_batch_def insert_dead_letter_def)

lemma dead_letter_items_update_eq_id [simp]:
  "dead_letter_items (update_eq_id env p j st) = dead_letter_items st"
  by (simp add: update_eq_id_def Let_def)

lemma declared_limit_cases:
  "declared_limit batchType
     = (if batchType = ''album_page'' \<or> batchType = ''track_page'' then 5 else 3)"
  by (simp add: declared_limit_def RETRY_LIMITS_def)

lemma retryLimit_cases:
  "retryLimit batchType
     = (if batchType \<in> set Object_prototype then Inherited
        else Limit (declared_limit batchType))"
  by (simp add: retryLimit_def declared_limit_def RETRY_LIMITS_def Object_prototype_def)

lemma not_less_than_limit:
  "declared_limit batchType \<le> n \<Longrightarrow> \<not> less_than_limit n (retryLimit batchType)"
  by (simp add: retryLimit_cases less_than_limit_def)


lemma backoffDelay_pow: "1 \<le> n \<Longrightarrow> backoffDelay n = 500 * 2 ^ nat (n - 1)"
  by (simp add: backoffDelay_def)

lemma small_backoffs:
  assumes "1 \<le> n" and "n < 5"
  shows "(500 :: int) * 2 ^ nat (n - 1) \<in> {500, 1000, 2000, 4000}"
proof -
  from assms have "n = 1 \<or> n = 2 \<or> n = 3 \<or> n = 4" by arith
  then show ?thesis by auto
qed

lemma the_selected_active:
  assumes "select_batch i st = Some b" and "active b"
  shows "\<forall>r\<in>set (processing_batches st). batch_id r = i \<longrightarrow> active r"
proof (intro ballI impI)
  fix r assume "r \<in> set (processing_batches st)" and "batch_id r = i"
  then have "r \<in> set [r \<leftarrow> processing_batches st. batch_id r = i]" by simp
  then have "r = b" unfolding select_batch_rows[OF assms(1)] by simp
  then show "active r" using assms(2) by simp
qed

text \<open>
  Claim C2, as the code has it. Take a failed dispatch of a batch that is still pending
  or processing, with a batch type that names no property which the object of the
  limits inherits, and with the number of the next attempt, \<open>nxt = retry_count + 1\<close>,
  below the limit declared for the type (5 for \<^verbatim>\<open>album_page\<close> and \<^verbatim>\<open>track_page\<close>, 3 for
  every other type). Then \<^verbatim>\<open>handleError\<close> finds that limit and issues one update of the
  batch: status pending, \<open>retry_count = nxt\<close>, \<open>error_message\<close> the failure message and
  \<open>updated_at\<close> the clock plus \<open>500 * 2^(nxt - 1)\<close> milliseconds. The update succeeds; the
  stored row is the row so assigned with, as its \<open>updated_at\<close>, what the row trigger
  makes of that row; no other row changes and no dead-letter row is written. Since
  \<open>nxt\<close> is below a limit of at most 5, the backoff is one of 500, 1000, 2000 and 4000
  milliseconds.
\<close>

theorem handleError_retry:
  assumes "select_batch batchId st = Some b"
    and "active b"
    and "0 \<le> retry_count b"
    and "nxt = retry_count b + 1"
    and "batchType \<notin> set Object_prototype"
    and "nxt < declared_limit batchType"
  shows
    "retryLimit batchType = Limit (declared_limit batchType)
     \<and> declared_limit batchType
       = (if batchType = ''album_page'' \<or> batchType = ''track_page'' then 5 else 3)
     \<and> handleError env now batchId message batchType st
       = update_eq_id env
           \<lparr>p_status = Some Pending, p_retry_count = Some nxt,
            p_error_message = Some message,
            p_updated_at = Some (now + 500 * 2 ^ nat (nxt - 1)),
            p_completed_at = None, p_items_processed = None, p_items_total = None\<rparr>
           batchId st
     \<and> (500 :: int) * 2 ^ nat (nxt - 1) \<in> {500, 1000, 2000, 4000}
     \<and> (\<exists>b'. b' = b\<lparr>status := Pending, retry_count := nxt, error_message := Some message,
                      updated_at :=
                        batch_updated_at_column env
                          (b\<lparr>status := Pending, retry_count := nxt,
                             error_message := Some message,
                             updated_at := now + 500 * 2 ^ nat (nxt - 1)\<rparr>)\<rparr>
            \<and> handleError env now batchId message batchType st
              = st\<lparr>processing_batches :=
                     map (\<lambda>r. if batch_id r = batchId then b' else r)
                         (processing_batches st)\<rparr>
            \<and> select_batch batchId (handleError env now batchId message batchType st)
              = Some b')
     \<and> dead_letter_items (handleError env now batchId message batchType st)
       = dead_letter_items st"
proof -
  let ?b' = "b\<lparr>status := Pending, retry_count := nxt, error_message := Some message,
                      updated_at :=
                        batch_updated_at_column env
                          (b\<lparr>status := Pending, retry_count := nxt,
                             error_message := Some message,
                             updated_at := now + 500 * 2 ^ nat (nxt - 1)\<rparr>)\<rparr>"
  have lim: "retryLimit batchType = Limit (declared_limit batchType)"
    using assms(5) by (simp add: retryLimit_cases)
  have dl: "declared_limit batchType
       = (if batchType = ''album_page'' \<or> batchType = ''track_page'' then 5 else 3)"
    by (rule declared_limit_cases)
  have n1: "1 \<le> nxt" using assms(3,4) by simp
  have n5: "nxt < 5" using assms(6) dl by (simp split: if_splits)
  have id: "batch_id b = batchId" using assms(1) by (rule select_batch_id)
  have eq: "handleError env now batchId message batchType st
       = update_eq_id env (retry_patch now nxt message) batchId st"
    using assms(1,4,6) by (simp add: handleError_def Let_def lim less_than_limit_def)
  have patch: "retry_patch now nxt message =
          \<lparr>p_status = Some Pending, p_retry_count = Some nxt,
            p_error_message = Some message,
            p_updated_at = Some (now + 500 * 2 ^ nat (nxt - 1)),
            p_completed_at = None, p_items_processed = None, p_items_total = None\<rparr>"
    by (simp add: retry_patch_def no_patch_def backoffDelay_pow[OF n1])
  have new: "set_processing_batches_updated_at env (apply_patch (retry_patch now nxt message) b)
       = ?b'"
    by (simp add: patch apply_patch_def set_processing_batches_updated_at_def)
  have st': "handleError env now batchId message batchType st
              = st\<lparr>processing_batches :=
                     map (\<lambda>r. if batch_id r = batchId then ?b' else r)
                         (processing_batches st)\<rparr>"
    unfolding eq update_eq_id_staying[OF the_selected_active[OF assms(1,2)]]
    using map_the_selected[OF assms(1),
        of "\<lambda>r. set_processing_batches_updated_at env (apply_patch (retry_patch now nxt message) r)"]
    by (simp add: new)
  have sel: "select_batch batchId (handleError env now batchId message batchType st) = Some ?b'"
  proof -
    let ?f = "\<lambda>r. if batch_id r = batchId then ?b' else r"
    have "select_batch batchId (st\<lparr>processing_batches := map ?f (processing_batches st)\<rparr>)
        = map_option ?f (select_batch batchId st)"
      unfolding select_batch_def
      by (simp add: single_filter_map[where f = ?f] id)
    then show ?thesis
      unfolding st' by (simp add: assms(1) id)
  qed
  have row: "\<exists>b'. b' = ?b'
            \<and> handleError env now batchId message batchType st
              = st\<lparr>processing_batches :=
                     map (\<lambda>r. if batch_id r = batchId then b' else r)
                         (processing_batches st)\<rparr>
            \<and> select_batch batchId (handleError env now batchId message batchType st)
              = Some b'"
    using st' sel by simp
  have dls: "dead_letter_items (handleError env now batchId message batchType st)
       = dead_letter_items st"
    unfolding st' by simp
  show ?thesis
    using patch by (intro conjI) (rule lim, rule dl, simp add: eq, rule small_backoffs[OF n1 n5],
      rule row, rule dls)
qed

text \<open>
  Claim C3, as the code has it. When the dispatch of a batch fails and
  \<open>retry_count + 1\<close> has reached the retry limit of its type, \<^verbatim>\<open>handleError\<close> sets the
  batch to status \<^verbatim>\<open>error\<close> with \<open>completed_at\<close> the clock and \<open>error_message\<close> the failure
  message, and appends exactly one dead-letter row, whose \<open>item_type\<close> is the batch type,
  whose \<open>original_batch_id\<close> is the id of the batch, and whose metadata is the metadata of
  the batch when JavaScript takes that for true (every object is), and the empty object
  otherwise.
\<close>

theorem handleError_exhausted:
  assumes "select_batch batchId st = Some b"
    and "batch_type b = batchType"
    and "retry_count b + 1 \<ge> declared_limit batchType"
  shows
    "\<exists>d b'. dead_letter_items (handleError env now batchId message batchType st)
              = dead_letter_items st @ [d]
       \<and> item_type d = batch_type b
       \<and> original_batch_id d = batchId
       \<and> original_item_id d = batchId
       \<and> dl_error_message d = Some message
       \<and> dl_retry_count d = Some 0
       \<and> dl_metadata d = Some (if js_truthy (js_value (metadata b))
                                then js_value (metadata b) else JObj [])
       \<and> select_batch batchId (handleError env now batchId message batchType st) = Some b'
       \<and> status b' = Error
       \<and> completed_at b' = Some now
       \<and> error_message b' = Some message"
proof -
  have id: "batch_id b = batchId" using assms(1) by (rule select_batch_id)
  have eq: "handleError env now batchId message batchType st
       = insert_dead_letter env now batchType message batchId
           (if js_truthy (js_value (metadata b)) then js_value (metadata b) else JObj [])
           (update_eq_id env (error_patch now message) batchId st)"
    using assms(1) not_less_than_limit[OF assms(3)] by (simp add: handleError_def Let_def)
  have leaving: "p_status (error_patch now message) = Some Error"
    by (simp add: error_patch_def no_patch_def)
  have upd: "update_eq_id env (error_patch now message) batchId st
       = st\<lparr>processing_batches :=
            map (\<lambda>b. if batch_id b = batchId
                      then set_processing_batches_updated_at env
                             (apply_patch (error_patch now message) b) else b)
                (processing_batches st)\<rparr>"
    by (rule update_eq_id_leaving[OF leaving]) simp_all
  show ?thesis
    unfolding eq upd
    by (simp add: select_batch_map assms(1,2) id)
       (simp add: insert_dead_letter_def error_patch_def no_patch_def apply_patch_def
          set_processing_batches_updated_at_def assms(2))
qed

text \<open>
  Claim C10, as the code has it. On the exhausted-retries transition the update names
  only \<open>status\<close>, \<open>error_message\<close> and \<open>completed_at\<close>; the stored \<open>retry_count\<close> is left as
  it was before the final attempt. That value is at least the limit of the type minus
  one, and it is the limit minus one whenever it was below the limit, as every value
  that the retry branch wrote is.
\<close>

theorem handleError_exhausted_keeps_retry_count:
  assumes "select_batch batchId st = Some b"
    and "retry_count b + 1 \<ge> declared_limit batchType"
  shows
    "(\<exists>md. handleError env now batchId message batchType st
        = insert_dead_letter env now batchType message batchId md
            (update_eq_id env
               \<lparr>p_status = Some Error, p_retry_count = None,
                p_error_message = Some message, p_updated_at = None,
                p_completed_at = Some now, p_items_processed = None,
                p_items_total = None\<rparr>
               batchId st))
     \<and> (\<exists>b'. select_batch batchId (handleError env now batchId message batchType st) = Some b'
            \<and> status b' = Error
            \<and> retry_count b' = retry_count b
            \<and> b' = b\<lparr>status := Error, error_message := Some message,
                      completed_at := Some now, updated_at := updated_at b'\<rparr>)
     \<and> retry_count b \<ge> declared_limit batchType - 1
     \<and> (retry_count b < declared_limit batchType
          \<longrightarrow> retry_count b = declared_limit batchType - 1)"
proof -
  have id: "batch_id b = batchId" using assms(1) by (rule select_batch_id)
  have eq: "handleError env now batchId message batchType st
       = insert_dead_letter env now batchType message batchId
           (if js_truthy (js_value (metadata b)) then js_value (metadata b) else JObj [])
           (update_eq_id env (error_patch now message) batchId st)"
    using assms(1) not_less_than_limit[OF assms(2)] by (simp add: handleError_def Let_def)
  have leaving: "p_status (error_patch now message) = Some Error"
    by (simp add: error_patch_def no_patch_def)
  have upd: "update_eq_id env (error_patch now message) batchId st
       = st\<lparr>processing_batches :=
            map (\<lambda>b. if batch_id b = batchId
                      then set_processing_batches_updated_at env
                             (apply_patch (error_patch now message) b) else b)
                (processing_batches st)\<rparr>"
    by (rule update_eq_id_leaving[OF leaving]) simp_all
  have patch: "error_patch now message =
          \<lparr>p_status = Some Error, p_retry_count = None,
                p_error_message = Some message, p_updated_at = None,
                p_completed_at = Some now, p_items_processed = None,
                p_items_total = None\<rparr>"
    by (simp add: error_patch_def no_patch_def)
  have 1: "\<exists>md. handleError env now batchId message batchType st
        = insert_dead_letter env now batchType message batchId md
            (update_eq_id env
               \<lparr>p_status = Some Error, p_retry_count = None,
                p_error_message = Some message, p_updated_at = None,
                p_completed_at = Some now, p_items_processed = None,
                p_items_total = None\<rparr>
               batchId st)"
    using eq patch by auto
  have 2: "\<exists>b'. select_batch batchId (handleError env now batchId message batchType st) = Some b'
            \<and> status b' = Error
            \<and> retry_count b' = retry_count b
            \<and> b' = b\<lparr>status := Error, error_message := Some message,
                      completed_at := Some now, updated_at := updated_at b'\<rparr>"
    by (simp add: eq upd select_batch_map assms(1) id)
       (simp add: error_patch_def no_patch_def apply_patch_def
          set_processing_batches_updated_at_def)
  show ?thesis using 1 2 assms(2) by simp
qed


lemma select_album_batch:
  "select_batch ''b1'' (store_of [album_batch rc md] ds rs) = Some (album_batch rc md)"
  by (simp add: select_batch_def store_of_def single_def album_batch_def new_batch_def)

theorem handleError_retry_witness:
  "handleError plain_env 1000 ''b1'' ''boom'' ''album_page''
       (store_of [album_batch 2 None] [] [])
     = update_eq_id plain_env
           \<lparr>p_status = Some Pending, p_retry_count = Some 3,
            p_error_message = Some ''boom'',
            p_updated_at = Some (1000 + 2000),
            p_completed_at = None, p_items_processed = None, p_items_total = None\<rparr>
           ''b1'' (store_of [album_batch 2 None] [] [])
   \<and> select_batch ''b1''
        (handleError plain_env 1000 ''b1'' ''boom'' ''album_page''
           (store_of [album_batch 2 None] [] []))
     = Some ((album_batch 2 None)
               \<lparr>status := Pending, retry_count := 3, error_message := Some ''boom'',
                updated_at := 3000\<rparr>)"
proof -
  have h2: "active (album_batch 2 None)"
    and h3: "0 \<le> retry_count (album_batch 2 None)"
    and h4: "3 = retry_count (album_batch 2 None) + 1"
    and h5: "''album_page'' \<notin> set Object_prototype"
    and h6: "3 < declared_limit ''album_page''"
    by (simp_all add: album_batch_def new_batch_def active_def declared_limit_def
          RETRY_LIMITS_def Object_prototype_def)
  note t = handleError_retry[OF select_album_batch h2 h3 h4 h5 h6,
             of plain_env 1000 "''boom''" "[]" "[]"]
  note t3 = t[THEN conjunct2, THEN conjunct2, THEN conjunct1]
  note t5 = t[THEN conjunct2, THEN conjunct2, THEN conjunct2, THEN conjunct2, THEN conjunct1]
  from t5 obtain b' where
    bd: "b' = (album_batch 2 None)
               \<lparr>status := Pending, retry_count := 3, error_message := Some ''boom'',
                updated_at :=
                  batch_updated_at_column plain_env
                    ((album_batch 2 None)
                       \<lparr>status := Pending, retry_count := 3,
                        error_message := Some ''boom'',
                        updated_at := 1000 + 500 * 2 ^ nat (3 - 1)\<rparr>)\<rparr>"
    and sb: "select_batch ''b1''
        (handleError plain_env 1000 ''b1'' ''boom'' ''album_page''
           (store_of [album_batch 2 None] [] [])) = Some b'"
    by (elim exE conjE) (rule that)
  have bv: "b' = (album_batch 2 None)
               \<lparr>status := Pending, retry_count := 3, error_message := Some ''boom'',
                updated_at := 3000\<rparr>"
    unfolding bd by (simp add: plain_env_def)
  note s = sb[unfolded bv]
  show ?thesis
    by (rule conjI) (use t3 in simp, rule s)
qed

text \<open>
  The claim as stated fails in four ways.
  \<^item> It ends with five backoffs, up to 8000 milliseconds. Five failures in a row of one
    \<^verbatim>\<open>album_page\<close> batch (with a trigger that keeps the \<open>updated_at\<close> of the statement, and
    the clock at 0) schedule four retries, 500 to 4000 milliseconds ahead; the fifth
    failure sets status \<^verbatim>\<open>error\<close> and schedules nothing.
  \<^item> It gives every type outside the table the limit 3. The first failure of a batch of
    type \<^verbatim>\<open>constructor\<close>, for which the next attempt 1 is below 3, finds the inherited
    property as its limit: the batch is set to \<^verbatim>\<open>error\<close> and a dead-letter row is written.
  \<^item> It takes the \<open>updated_at\<close> of the update for that of the stored row. With a row
    trigger that stamps the clock, the row stored at time 1000 has \<open>updated_at\<close> 1000,
    not 1500.
  \<^item> It takes the update to succeed. A batch that is in status \<^verbatim>\<open>error\<close> by the time its
    dispatch fails, while a pending batch has its type and metadata, cannot become
    pending again: the update collides on the unique index and the table is as before.
\<close>

theorem handleError_fifth_failure_counterexample:
  "map (\<lambda>k. map (\<lambda>b. (status b, retry_count b, updated_at b))
               (processing_batches
                  ((handleError plain_env 0 ''b1'' ''boom'' ''album_page'' ^^ k)
                     (store_of [album_batch 0 None] [] []))))
       [1, 2, 3, 4, 5]
   = [[(Pending, 1, 500)], [(Pending, 2, 1000)], [(Pending, 3, 2000)], [(Pending, 4, 4000)],
      [(Error, 4, 4000)]]
   \<and> 1 < declared_limit ''constructor''
   \<and> (let st = handleError plain_env 0 ''b1'' ''boom'' ''constructor''
                  (store_of [(album_batch 0 None)\<lparr>batch_type := ''constructor''\<rparr>] [] [])
      in map (\<lambda>b. (status b, retry_count b)) (processing_batches st) = [(Error, 0)]
       \<and> map item_type (dead_letter_items st) = [''constructor''])
   \<and> map (\<lambda>b. (status b, retry_count b, updated_at b))
         (processing_batches
            (handleError (stamping_env 1000) 1000 ''b1'' ''boom'' ''album_page''
               (store_of [album_batch 0 None] [] [])))
     = [(Pending, 1, 1000)]
   \<and> handleError plain_env 1000 ''b1'' ''boom'' ''album_page''
        (store_of [(album_batch 0 (Some (JObj [])))\<lparr>status := Error\<rparr>,
                   new_batch ''b2'' ''album_page'' (Some (JObj [])) 0] [] [])
     = store_of [(album_batch 0 (Some (JObj [])))\<lparr>status := Error\<rparr>,
                 new_batch ''b2'' ''album_page'' (Some (JObj [])) 0] [] []"
  by code_simp

theorem handleError_exhausted_witness:
  "\<exists>d. dead_letter_items
          (handleError plain_env 1000 ''b1'' ''boom'' ''album_page''
             (store_of [album_batch 4 (Some (JObj [(''artist_id'', JStr ''A'')]))] [] [])) = [d]
       \<and> item_type d = ''album_page''
       \<and> original_batch_id d = ''b1''
       \<and> dl_metadata d = Some (JObj [(''artist_id'', JStr ''A'')])"
proof -
  let ?md = "Some (JObj [(''artist_id'', JStr ''A'')])"
  have h2: "batch_type (album_batch 4 ?md) = ''album_page''"
    and h3: "retry_count (album_batch 4 ?md) + 1 \<ge> declared_limit ''album_page''"
    and m: "metadata (album_batch 4 ?md) = ?md"
    by (simp_all add: album_batch_def new_batch_def declared_limit_def RETRY_LIMITS_def)
  from handleError_exhausted[OF select_album_batch h2 h3, of plain_env 1000 "''boom''" "[]" "[]"]
  show ?thesis by (auto simp: m h2 js_value_def store_of_def)
qed

text \<open>
  The claim as stated gives the dead-letter row the original metadata of the batch. A
  batch whose metadata is \<^verbatim>\<open>NULL\<close> gets a dead-letter row with the empty object.
\<close>

theorem handleError_null_metadata_counterexample:
  "metadata (album_batch 4 None) = None
   \<and> map dl_metadata
        (dead_letter_items
           (handleError plain_env 1000 ''b1'' ''boom'' ''album_page''
              (store_of [album_batch 4 None] [] [])))
     = [Some (JObj [])]"
  by code_simp

theorem handleError_exhausted_keeps_retry_count_witness:
  "\<exists>b'. select_batch ''b1''
           (handleError plain_env 1000 ''b1'' ''boom'' ''album_page''
              (store_of [album_batch 4 None] [] [])) = Some b'
        \<and> status b' = Error
        \<and> retry_count b' = 4
        \<and> declared_limit ''album_page'' - 1 = 4"
proof -
  have h3: "retry_count (album_batch 4 None) + 1 \<ge> declared_limit ''album_page''"
    and r: "retry_count (album_batch 4 None) = 4"
    and l: "declared_limit ''album_page'' - 1 = 4"
    by (simp_all add: album_batch_def new_batch_def declared_limit_def RETRY_LIMITS_def)
  note t = handleError_exhausted_keeps_retry_count[OF select_album_batch h3,
             of plain_env 1000 "''boom''" "[]" "[]"]
  from t[THEN conjunct2, THEN conjunct1] obtain b' where
    A: "select_batch ''b1''
           (handleError plain_env 1000 ''b1'' ''boom'' ''album_page''
              (store_of [album_batch 4 None] [] [])) = Some b'
        \<and> status b' = Error
        \<and> retry_count b' = retry_count (album_batch 4 None)
        \<and> b' = (album_batch 4 None)\<lparr>status := Error, error_message := Some ''boom'',
                      completed_at := Some 1000, updated_at := updated_at b'\<rparr>" ..
  from A have a1: "select_batch ''b1''
           (handleError plain_env 1000 ''b1'' ''boom'' ''album_page''
              (store_of [album_batch 4 None] [] [])) = Some b'"
    and a2: "status b' = Error"
    and a3: "retry_count b' = retry_count (album_batch 4 None)"
    by (rule conjunct1, rule conjunct2[THEN conjunct1],
        rule conjunct2[THEN conjunct2, THEN conjunct1])
  show ?thesis
    using a1 a2 a3 r l by (intro exI[of _ b'] conjI) simp_all
qed

text \<open>
  The claim as stated gives every batch in status \<^verbatim>\<open>error\<close> the retry count
  \<open>limit - 1\<close>. A dead-letter item with retry count 2 is requeued as a batch with retry
  count 3; the first failure of that batch, of a type with limit 3, sets it to \<^verbatim>\<open>error\<close>
  with retry count 3.
\<close>

theorem handleError_requeued_batch_counterexample:
  "(case requeue_dead_letter_items plain_env 200 100
           (store_of [] [new_dead_letter ''d1'' ''producer_discovery'' (Some 2) 100] []) of
      Inl e \<Rightarrow> []
    | Inr (n, st) \<Rightarrow>
        map (\<lambda>b. (batch_id b, status b, retry_count b))
            (processing_batches
               (handleError plain_env 300 ''uuid-'' ''boom'' ''producer_discovery'' st)))
     = [(''uuid-'', Error, 3)]
   \<and> declared_limit ''producer_discovery'' - 1 = 2"
  by code_simp

section \<open>Properties of lease recovery\<close>







section \<open>Properties of the claim\<close>

subsection \<open>Selecting the first rows of an ordered query\<close>

lemma selection_subset:
  "set (take n (sort_key k (filter P xs))) \<subseteq> {x \<in> set xs. P x}"
  using set_take_subset[of n "sort_key k (filter P xs)"] by auto

lemma selection_distinct:
  "distinct xs \<Longrightarrow> distinct (take n (sort_key k (filter P xs)))"
  by (simp add: distinct_take)

lemma selection_length:
  "length (take n (sort_key k (filter P xs))) = min n (length (filter P xs))"
  by (simp add: min.commute)

lemma selection_sorted:
  "sorted (map k (take n (sort_key k (filter P xs))))"
proof -
  have "sorted (map k (sort_key k (filter P xs)))" by (rule sorted_sort_key)
  then show ?thesis by (simp add: take_map[symmetric] sorted_wrt_take)
qed

lemma selection_least:
  fixes k :: "'a \<Rightarrow> 'k::linorder"
  assumes "y \<in> set xs" and "P y" and "y \<notin> set (take n (sort_key k (filter P xs)))"
    and "x \<in> set (take n (sort_key k (filter P xs)))"
  shows "k x \<le> k y"
proof -
  let ?l = "sort_key k (filter P xs)"
  have "y \<in> set ?l" using assms(1,2) by simp
  then have "y \<in> set (take n ?l) \<union> set (drop n ?l)"
    by (metis append_take_drop_id set_append)
  then have y: "y \<in> set (drop n ?l)" using assms(3) by simp
  have "sorted (map k (take n ?l @ drop n ?l))" by (simp add: sorted_sort_key)
  then have "\<forall>a\<in>set (take n ?l). \<forall>b\<in>set (drop n ?l). k a \<le> k b"
    unfolding map_append sorted_append by auto
  then show ?thesis using assms(4) y by blast
qed

lemma sorted_lex_pairs:
  fixes f :: "'a \<Rightarrow> int" and g :: "'a \<Rightarrow> int"
  shows "sorted (map (\<lambda>b. (f b, g b)) xs)
     = sorted_wrt (\<lambda>s b. f s < f b \<or> (f s = f b \<and> g s \<le> g b)) xs"
  by (induction xs) (auto simp: less_eq_prod_def)


lemma claimable_eq:
  "claimable v_now =
     (\<lambda>b. status b = Pending \<and>
          (claim_expires_at b = None \<or> (\<exists>t. claim_expires_at b = Some t \<and> t < v_now)))"
  by (rule ext) (auto simp: claimable_def split: option.splits)

lemma key_in_selection:
  assumes "distinct (map key xs)" and "set sel \<subseteq> set xs" and "x \<in> set xs"
  shows "key x \<in> set (map key sel) \<longleftrightarrow> x \<in> set sel"
proof -
  have inj: "inj_on key (set xs)" using assms(1) by (simp add: distinct_map)
  show ?thesis
  proof
    assume "key x \<in> set (map key sel)"
    then obtain y where y: "y \<in> set sel" "key y = key x" by auto
    then have "y = x" using inj assms(2,3) by (auto dest: inj_onD)
    then show "x \<in> set sel" using y by simp
  next
    assume "x \<in> set sel" then show "key x \<in> set (map key sel)" by simp
  qed
qed

lemma claim_row_fields:
  "status (claim_row env w v_now b) = Processing
   \<and> claimed_by (claim_row env w v_now b) = Some w
   \<and> claim_expires_at (claim_row env w v_now b) = Some (v_now + 5 * 60000)
   \<and> started_at (claim_row env w v_now b)
       = Some (case started_at b of None \<Rightarrow> v_now | Some s \<Rightarrow> s)
   \<and> claim_row env w v_now b
       = b\<lparr>status := Processing,
            claimed_by := claimed_by (claim_row env w v_now b),
            claim_expires_at := claim_expires_at (claim_row env w v_now b),
            started_at := started_at (claim_row env w v_now b),
            updated_at := updated_at (claim_row env w v_now b)\<rparr>"
  by (simp add: claim_row_def set_processing_batches_updated_at_def minutes_def)

lemma filter_key_single:
  assumes "distinct (map key xs)" and "x \<in> set xs"
  shows "filter (\<lambda>b. key b = key x) xs = [x]"
  using assms
proof (induction xs)
  case Nil
  then show ?case by simp
next
  case (Cons y ys)
  show ?case
  proof (cases "x = y")
    case True
    have "key y \<notin> key ` set ys" using Cons.prems(1) by simp
    then have "\<And>b. b \<in> set ys \<Longrightarrow> key b \<noteq> key y" by (metis imageI)
    then have "filter (\<lambda>b. key b = key y) ys = []"
      by (simp add: filter_empty_conv)
    then show ?thesis using True by simp
  next
    case False
    then have x: "x \<in> set ys" using Cons.prems(2) by simp
    then have "key y \<noteq> key x" using Cons.prems(1) by auto
    then show ?thesis using Cons.IH x Cons.prems(1) by simp
  qed
qed

lemma rows_of_selected_keys:
  assumes "distinct (map key xs)" and "set sel \<subseteq> set xs"
  shows "concat (map (\<lambda>i. filter (\<lambda>b. key b = i) xs) (map key sel)) = sel"
  using assms(2)
  by (induction sel) (simp_all add: filter_key_single[OF assms(1)])

lemma batch_id_claim_row [simp]: "batch_id (claim_row env w v_now b) = batch_id b"
  by (simp add: claim_row_def set_processing_batches_updated_at_def)

lemma claim_processing_batches_by_rows:
  assumes "distinct (map batch_id (processing_batches st))" and "0 \<le> p_limit"
  shows "claim_processing_batches env v_now p_limit st
     = Inr (map (claim_row env (gen_random_uuid env (uuid_seq st)) v_now)
              (claimable_batches v_now p_limit (processing_batches st)),
            st\<lparr>processing_batches :=
                 map (\<lambda>b. if b \<in> set (claimable_batches v_now p_limit (processing_batches st))
                          then claim_row env (gen_random_uuid env (uuid_seq st)) v_now b else b)
                     (processing_batches st),
               uuid_seq := Suc (uuid_seq st)\<rparr>)"
proof -
  let ?sel = "claimable_batches v_now p_limit (processing_batches st)"
  have sub: "set ?sel \<subseteq> set (processing_batches st)"
    unfolding claimable_batches_def using selection_subset by fastforce
  have mem: "\<And>b. b \<in> set (processing_batches st) \<Longrightarrow>
       batch_id b \<in> set (map batch_id ?sel) \<longleftrightarrow> b \<in> set ?sel"
    by (rule key_in_selection[OF assms(1) sub])
  have f: "concat (map (\<lambda>i. filter (\<lambda>b. batch_id b = i) (processing_batches st))
                       (map batch_id ?sel)) = ?sel"
    by (rule rows_of_selected_keys[OF assms(1) sub])
  have m: "map (\<lambda>b. if batch_id b \<in> set (map batch_id ?sel)
                    then claim_row env (gen_random_uuid env (uuid_seq st)) v_now b else b)
               (processing_batches st)
         = map (\<lambda>b. if b \<in> set ?sel
                    then claim_row env (gen_random_uuid env (uuid_seq st)) v_now b else b)
               (processing_batches st)"
    by (rule map_cong[OF refl]) (use mem in auto)
  show ?thesis
    using assms(2) unfolding claim_processing_batches_def Let_def f m by simp
qed

text \<open>
  Claim C1, as the code has it. On a table whose ids are distinct and for a limit that
  is not negative, a call of \<^verbatim>\<open>claim_processing_batches\<close> selects rows \<open>sel\<close> such that:
  every selected row is pending with \<open>claim_expires_at\<close> null or earlier than the clock;
  their number is the limit, or the number of all such rows when that is smaller; they
  are in the order of \<open>retry_count\<close>, then \<open>created_at\<close>, and no eligible row left out
  comes before a selected one in that order. Each selected row is updated to status
  \<^verbatim>\<open>processing\<close>, \<open>claimed_by\<close> the worker id drawn for the call, \<open>claim_expires_at\<close> the
  clock plus five minutes and \<open>started_at\<close> its former value, or the clock when that was
  null (and \<open>updated_at\<close>); no other field and no other row changes. The rows returned
  are the updated selected rows, each once, in an order that the theorem leaves open, and
  the result is empty exactly when the limit is zero or no row is eligible.
\<close>

theorem claim_processing_batches_selects:
  assumes "distinct (map batch_id (processing_batches st))" and "0 \<le> p_limit"
  shows
    "\<exists>sel upd rows.
        set sel \<subseteq> {b \<in> set (processing_batches st).
                      status b = Pending \<and>
                      (claim_expires_at b = None \<or>
                       (\<exists>t. claim_expires_at b = Some t \<and> t < v_now))}
      \<and> distinct sel
      \<and> length sel
          = min (nat p_limit)
                (length [b \<leftarrow> processing_batches st.
                           status b = Pending \<and>
                           (claim_expires_at b = None \<or>
                            (\<exists>t. claim_expires_at b = Some t \<and> t < v_now))])
      \<and> sorted_wrt (\<lambda>s b. retry_count s < retry_count b \<or>
                          (retry_count s = retry_count b \<and> created_at s \<le> created_at b)) sel
      \<and> (\<forall>b\<in>set (processing_batches st). \<forall>s\<in>set sel.
            status b = Pending \<and>
            (claim_expires_at b = None \<or> (\<exists>t. claim_expires_at b = Some t \<and> t < v_now)) \<and>
            b \<notin> set sel \<longrightarrow>
            retry_count s < retry_count b \<or>
            (retry_count s = retry_count b \<and> created_at s \<le> created_at b))
      \<and> (\<forall>b. status (upd b) = Processing
             \<and> claimed_by (upd b) = Some (gen_random_uuid env (uuid_seq st))
             \<and> claim_expires_at (upd b) = Some (v_now + 5 * 60000)
             \<and> started_at (upd b) = Some (case started_at b of None \<Rightarrow> v_now | Some s \<Rightarrow> s)
             \<and> upd b = b\<lparr>status := Processing,
                          claimed_by := claimed_by (upd b),
                          claim_expires_at := claim_expires_at (upd b),
                          started_at := started_at (upd b),
                          updated_at := updated_at (upd b)\<rparr>)
      \<and> claim_processing_batches env v_now p_limit st
          = Inr (rows,
                 st\<lparr>processing_batches :=
                      map (\<lambda>b. if b \<in> set sel then upd b else b) (processing_batches st),
                    uuid_seq := Suc (uuid_seq st)\<rparr>)
      \<and> set rows = upd ` set sel
      \<and> distinct rows
      \<and> length rows = length sel
      \<and> (rows = [] \<longleftrightarrow>
           p_limit = 0 \<or>
           [b \<leftarrow> processing_batches st.
              status b = Pending \<and>
              (claim_expires_at b = None \<or>
               (\<exists>t. claim_expires_at b = Some t \<and> t < v_now))] = [])"
proof -
  let ?rows = "processing_batches st"
  let ?sel = "claimable_batches v_now p_limit ?rows"
  let ?upd = "claim_row env (gen_random_uuid env (uuid_seq st)) v_now"
  note defs = claimable_batches_def claimable_eq
  have 1: "set ?sel \<subseteq> {b \<in> set ?rows.
                      status b = Pending \<and>
                      (claim_expires_at b = None \<or>
                       (\<exists>t. claim_expires_at b = Some t \<and> t < v_now))}"
    unfolding defs by (rule selection_subset)
  have 2: "distinct ?sel"
    unfolding claimable_batches_def
    using assms(1) by (intro selection_distinct) (simp add: distinct_map)
  have 3: "length ?sel = min (nat p_limit)
                (length [b \<leftarrow> ?rows.
                           status b = Pending \<and>
                           (claim_expires_at b = None \<or>
                            (\<exists>t. claim_expires_at b = Some t \<and> t < v_now))])"
    unfolding defs by (rule selection_length)
  have 4: "sorted_wrt (\<lambda>s b. retry_count s < retry_count b \<or>
                          (retry_count s = retry_count b \<and> created_at s \<le> created_at b)) ?sel"
    using selection_sorted[of claim_order "nat p_limit" "claimable v_now" ?rows]
    unfolding claimable_batches_def claim_order_def sorted_lex_pairs .
  have 5: "\<forall>b\<in>set ?rows. \<forall>s\<in>set ?sel.
            status b = Pending \<and>
            (claim_expires_at b = None \<or> (\<exists>t. claim_expires_at b = Some t \<and> t < v_now)) \<and>
            b \<notin> set ?sel \<longrightarrow>
            retry_count s < retry_count b \<or>
            (retry_count s = retry_count b \<and> created_at s \<le> created_at b)"
  proof (intro ballI impI)
    fix b s
    assume b: "b \<in> set ?rows" and s: "s \<in> set ?sel"
      and h: "status b = Pending \<and>
            (claim_expires_at b = None \<or> (\<exists>t. claim_expires_at b = Some t \<and> t < v_now)) \<and>
            b \<notin> set ?sel"
    have "claimable v_now b" using h by (simp add: claimable_eq)
    then have "claim_order s \<le> claim_order b"
      using selection_least[of b ?rows "claimable v_now" "nat p_limit" claim_order s] b s h
      unfolding claimable_batches_def by blast
    then show "retry_count s < retry_count b \<or>
            (retry_count s = retry_count b \<and> created_at s \<le> created_at b)"
      by (auto simp: claim_order_def less_eq_prod_def)
  qed
  have 6: "\<forall>b. status (?upd b) = Processing
             \<and> claimed_by (?upd b) = Some (gen_random_uuid env (uuid_seq st))
             \<and> claim_expires_at (?upd b) = Some (v_now + 5 * 60000)
             \<and> started_at (?upd b) = Some (case started_at b of None \<Rightarrow> v_now | Some s \<Rightarrow> s)
             \<and> ?upd b = b\<lparr>status := Processing,
                          claimed_by := claimed_by (?upd b),
                          claim_expires_at := claim_expires_at (?upd b),
                          started_at := started_at (?upd b),
                          updated_at := updated_at (?upd b)\<rparr>"
    using claim_row_fields by blast
  have 7: "claim_processing_batches env v_now p_limit st
          = Inr (map ?upd ?sel,
                 st\<lparr>processing_batches :=
                      map (\<lambda>b. if b \<in> set ?sel then ?upd b else b) ?rows,
                    uuid_seq := Suc (uuid_seq st)\<rparr>)"
    by (rule claim_processing_batches_by_rows[OF assms])
  have 8: "set (map ?upd ?sel) = ?upd ` set ?sel" by simp
  have sub: "set ?sel \<subseteq> set ?rows" using 1 by auto
  have inj: "inj_on batch_id (set ?rows)" using assms(1) by (simp add: distinct_map)
  have "distinct (map batch_id ?sel)"
    using 2 inj sub by (simp add: distinct_map inj_on_subset)
  then have "distinct (map batch_id (map ?upd ?sel))" by (simp add: comp_def)
  then have 9: "distinct (map ?upd ?sel)"
    by (rule distinct_map[THEN iffD1, THEN conjunct1])
  have 10: "length (map ?upd ?sel) = length ?sel" by simp
  have "map ?upd ?sel = [] \<longleftrightarrow> length ?sel = 0" by simp
  also have "\<dots> \<longleftrightarrow> p_limit = 0 \<or>
           [b \<leftarrow> ?rows.
              status b = Pending \<and>
              (claim_expires_at b = None \<or>
               (\<exists>t. claim_expires_at b = Some t \<and> t < v_now))] = []"
    unfolding 3 using assms(2) by (auto simp: min_def)
  finally have 11: "map ?upd ?sel = [] \<longleftrightarrow>
           p_limit = 0 \<or>
           [b \<leftarrow> ?rows.
              status b = Pending \<and>
              (claim_expires_at b = None \<or>
               (\<exists>t. claim_expires_at b = Some t \<and> t < v_now))] = []" .
  show ?thesis
    by (rule exI[of _ ?sel], rule exI[of _ ?upd], rule exI[of _ "map ?upd ?sel"], intro conjI)
       (rule 1, rule 2, rule 3, rule 4, rule 5, rule 6, rule 7, rule 8, rule 9, rule 10,
        rule 11)
qed


theorem claim_processing_batches_selects_witness:
  "distinct (map batch_id (processing_batches three_pending))
   \<and> (\<exists>rows st'. claim_processing_batches plain_env 1000 2 three_pending = Inr (rows, st')
                 \<and> rows \<noteq> [])"
proof -
  have h1: "distinct (map batch_id (processing_batches three_pending))"
    by (simp add: three_pending_def store_of_def new_batch_def)
  have h2: "(0::int) \<le> 2" by simp
  have ne: "\<not> ((2::int) = 0 \<or>
           [b \<leftarrow> processing_batches three_pending.
              status b = Pending \<and>
              (claim_expires_at b = None \<or>
               (\<exists>t. claim_expires_at b = Some t \<and> t < 1000))] = [])"
    by (simp add: three_pending_def store_of_def new_batch_def)
  from claim_processing_batches_selects[OF h1 h2, of 1000 plain_env]
  obtain sel upd rows where
    c: "claim_processing_batches plain_env 1000 2 three_pending
          = Inr (rows,
                 three_pending\<lparr>processing_batches :=
                      map (\<lambda>b. if b \<in> set sel then upd b else b)
                          (processing_batches three_pending),
                    uuid_seq := Suc (uuid_seq three_pending)\<rparr>)"
    and e: "rows = [] \<longleftrightarrow>
           (2::int) = 0 \<or>
           [b \<leftarrow> processing_batches three_pending.
              status b = Pending \<and>
              (claim_expires_at b = None \<or>
               (\<exists>t. claim_expires_at b = Some t \<and> t < 1000))] = []"
    by (elim exE conjE) (rule that)
  from e ne have "rows \<noteq> []" by simp
  with c h1 show ?thesis by simp
qed

text \<open>
  The claim as stated reads an empty result as the absence of eligible rows. With limit
  0 the result is empty while an eligible row exists.
\<close>

theorem claim_processing_batches_limit_zero_counterexample:
  "(\<exists>st'. claim_processing_batches plain_env 1000 0
            (store_of [new_batch ''b1'' ''album_page'' None 0] [] []) = Inr ([], st'))
   \<and> claimable 1000 (new_batch ''b1'' ''album_page'' None 0)"
  by (simp add: claim_processing_batches_def claimable_batches_def claimable_def
        new_batch_def store_of_def)

text \<open>On the three pending batches and limit 2 the model returns the rows in the order of
  the selection: first the oldest batch without a retry, then the other one.\<close>

lemma claim_processing_batches_three_pending:
  "(case claim_processing_batches plain_env 1000 2 three_pending of
      Inl e \<Rightarrow> []
    | Inr (rows, st') \<Rightarrow> map batch_id rows)
   = [''c'', ''a'']"
  by code_simp

section \<open>Properties of the requeue of dead letters\<close>


lemma dl_id_bump [simp]: "dl_id (bump_dead_letter env now d) = dl_id d"
  by (simp add: bump_dead_letter_def set_dead_letter_items_updated_at_def)










section \<open>Properties of the worker tick\<close>

text \<open>From the value it read, the tick does what the throttle intends.\<close>

lemma tick_throttles_on_the_value_read:
  "or_zero inProgressCount \<ge> 3 \<Longrightarrow>
     claim_and_process_from inProgressCount env invoke now st
       = (\<lparr>claimed = 0, completed = None, failed = None, error = None\<rparr>,
          [Log ''max_concurrent_jobs_reached''], st)"
  by (simp add: claim_and_process_from_def MAX_CONCURRENT_JOBS_def)

lemma tick_claims_on_the_value_read:
  "or_zero inProgressCount < 3 \<Longrightarrow>
     hd (fst (snd (claim_and_process_from inProgressCount env invoke now st)))
       = RpcClaim (3 - or_zero inProgressCount)"
  by (simp add: claim_and_process_from_def MAX_CONCURRENT_JOBS_def Let_def
           split: sum.splits prod.splits)

text \<open>The value it reads is the \<^verbatim>\<open>data\<close> of a \<^verbatim>\<open>HEAD\<close> request, which is \<^verbatim>\<open>null\<close>: the tick
  takes the count for 0 in every store.\<close>

lemma tick_always_claims_three:
  "hd (fst (snd (claimAndProcessBatches env invoke now st))) = RpcClaim 3
   \<and> Log ''max_concurrent_jobs_reached''
        \<notin> set (fst (snd (claimAndProcessBatches env invoke now st)))"
  by (simp add: claimAndProcessBatches_def claim_and_process_from_def select_head_count_def
        or_zero_def MAX_CONCURRENT_JOBS_def Let_def
      split: sum.splits prod.splits)

text \<open>
  Claim C4 on the code. With three batches in status \<^verbatim>\<open>processing\<close> and one pending, the
  claim has the tick log \<^verbatim>\<open>max_concurrent_jobs_reached\<close> and return without a call of
  \<^verbatim>\<open>claim_processing_batches\<close>. The tick calls it with limit 3, claims the pending batch
  and dispatches it.
\<close>

theorem claimAndProcessBatches_at_capacity:
  "length [b \<leftarrow> processing_batches three_in_progress. status b = Processing] = 3
   \<and> (case claimAndProcessBatches plain_env (\<lambda>functionName body. Responded True []) 1000
              three_in_progress of
        (result, effects, st') \<Rightarrow>
          claimed result = 1
          \<and> effects = [RpcClaim 3, Log ''batches_claimed'']
          \<and> map (\<lambda>b. (batch_id b, status b)) (processing_batches st')
              = [(''p1'', Processing), (''p2'', Processing), (''p3'', Processing),
                 (''q1'', Completed)])"
  by code_simp

section \<open>Properties of the monitor\<close>

text \<open>The critical alert is raised exactly for more than five stalled batches, and then
  the monitor calls \<^verbatim>\<open>reset_expired_batches\<close> with 30 minutes and records the action.\<close>

lemma checkSystemHealth_critical:
  "list_ex (\<lambda>a. level a = ''critical'') (alerts (fst (checkSystemHealth env now st)))
     \<longleftrightarrow> length (filter (stalled now) (processing_batches st)) > 5"
  by (auto simp: checkSystemHealth_def Let_def select_head_count_def or_zero_def
      stalled_batches_threshold_def dead_letter_items_threshold_def
      error_batches_threshold_def list_ex_iff)

lemma checkSystemHealth_remediation:
  "checkSystemHealth env now st = (report, st') \<Longrightarrow>
     (if length (filter (stalled now) (processing_batches st)) > 5
      then actions report
             = [\<lparr>action = ''reset_stalled_batches'',
                 action_count = length (filter (stalled now) (processing_batches st)),
                 action_timestamp = now\<rparr>]
         \<and> st' = snd (reset_expired_batches env now 30 st)
      else actions report = [] \<and> st' = st)"
  by (auto simp: checkSystemHealth_def Let_def select_head_count_def or_zero_def
      stalled_batches_threshold_def processing_time_minutes_def dead_letter_items_threshold_def
      error_batches_threshold_def list_ex_iff)

text \<open>A stalled batch is still stalled after the reset unless its lease, not its start,
  is older than the expiry.\<close>

lemma filter_map_replaced:
  assumes "\<And>x. E x \<Longrightarrow> \<not> P (r x)"
  shows "filter P (map (\<lambda>x. if E x then r x else x) xs) = filter (\<lambda>x. P x \<and> \<not> E x) xs"
  using assms by (induction xs) auto

lemma stalled_after_reset:
  "filter (stalled now) (processing_batches (snd (reset_expired_batches env now m st)))
     = filter (\<lambda>b. stalled now b \<and> \<not> expired now m b) (processing_batches st)"
proof -
  have "\<And>b. expired now m b \<Longrightarrow> \<not> stalled now (reset_row env now b)"
    by (simp add: stalled_def reset_row_def set_processing_batches_updated_at_def)
  then show ?thesis
    unfolding reset_expired_batches_def snd_conv
    by (simp add: filter_map_replaced)
qed

text \<open>
  Claim C8 on the code. Six batches were claimed 31 minutes ago: they are stalled, and
  their leases ran out 26 minutes ago. The monitor reports the critical alert, calls the
  reset and records \<^verbatim>\<open>reset_stalled_batches\<close> with count 6, as the claim says; the claim
  then has no batch stalled, and all six still are.
\<close>

theorem checkSystemHealth_leaves_stalled_batches:
  "(case checkSystemHealth plain_env (minutes 31) six_stalled of
      (report, st') \<Rightarrow>
        map level (alerts report) = [''critical'']
        \<and> stalled_batches report = 6
        \<and> actions report
            = [\<lparr>action = ''reset_stalled_batches'', action_count = 6,
                action_timestamp = minutes 31\<rparr>]
        \<and> length (filter (stalled (minutes 31)) (processing_batches st')) = 6)"
  by code_simp

end
